theory Spec2Isabelle
  imports Main "HOL-Library.Sublist" "HOL-Library.AList"
begin

section \<open>Thrown values\<close>

text \<open>
  The TypeScript code signals failure by throwing. A thrown value is either an
  instance of \<^verbatim>\<open>Error\<close> (of some class, carrying a message) or any other
  JavaScript value, of which only \<^verbatim>\<open>String(value)\<close> is ever read.
  \<^verbatim>\<open>CacheError\<close> carries its type tag (\<^verbatim>\<open>"not-found"\<close> or \<^verbatim>\<open>"invalid"\<close>).
\<close>

datatype CacheErrorType = not_found | invalid

datatype ErrorClass =
    CacheError CacheErrorType
  | ShortestError
  | ToolError
  | TypeError
  | PlainError

datatype thrown =
    ErrorObj ErrorClass string
  | NonError string

text \<open>\<^verbatim>\<open>error instanceof CacheError\<close>\<close>

fun instanceofCacheError :: "thrown \<Rightarrow> bool" where
  "instanceofCacheError (ErrorObj (CacheError k) m) = True"
| "instanceofCacheError e = False"

text \<open>\<^verbatim>\<open>error instanceof Error ? error.message : String(error)\<close>\<close>

fun messageOrString :: "thrown \<Rightarrow> string" where
  "messageOrString (ErrorObj c m) = m"
| "messageOrString (NonError s) = s"

section \<open>Data model\<close>

datatype TestStatus = pending | running | passed | failed

record TokenUsage =
  completionTokens :: int
  promptTokens :: int
  totalTokens :: int

text \<open>
  The action tags are the members of \<^verbatim>\<open>InternalActionEnum\<close> that
  \<^verbatim>\<open>BrowserTool.execute\<close> switches on; a recorded step read back from disk may
  carry any other string.
\<close>

datatype InternalActionEnum =
    LEFT_CLICK | RIGHT_CLICK | MIDDLE_CLICK | DOUBLE_CLICK | TRIPLE_CLICK
  | MOUSE_MOVE | LEFT_CLICK_DRAG | LEFT_MOUSE_DOWN | LEFT_MOUSE_UP
  | CURSOR_POSITION | SCREENSHOT | TYPE' | KEY | HOLD_KEY | GITHUB_LOGIN
  | CLEAR_SESSION | RUN_CALLBACK | NAVIGATE | WAIT | SCROLL | SLEEP
  | CHECK_EMAIL | OTHER_ACTION string

record ActionInput =
  action :: InternalActionEnum
  coordinate :: "(int \<times> int) option"
  coordinates :: "(int \<times> int) option"
  text_field :: "string option"
  url :: "string option"
  duration :: "int option"

record CacheAction =
  action_type :: string
  action_name :: string
  input :: ActionInput

text \<open>
  \<^verbatim>\<open>step.extras\<close> is untyped in the source; the replay reads
  \<^verbatim>\<open>step.extras.componentStr\<close>, so the model keeps exactly that field, and lets
  both the object and the field be absent.
\<close>

record Extras =
  componentStr :: "string option"

record CacheStep =
  reasoning :: string
  step_action :: "CacheAction option"
  step_timestamp :: int
  result :: "string option"
  extras :: "Extras option"

text \<open>
  A callback of a test case (\<^verbatim>\<open>fn\<close>, \<^verbatim>\<open>beforeFn\<close>, \<^verbatim>\<open>afterFn\<close>) acts on the
  browser, of abstract state \<open>'b\<close>, and either returns or throws.
\<close>

type_synonym 'b callback = "'b \<Rightarrow> thrown option \<times> 'b"

record 'b Expectation =
  description :: string
  exp_fn :: "'b callback option"

record 'b TestCase =
  name :: string
  filePath :: string
  tc_identifier :: string
  payload :: "string option"
  fn :: "'b callback option"
  directExecution :: bool
  expectations :: "'b Expectation list"
  beforeFn :: "'b callback option"
  afterFn :: "'b callback option"

record TestRunState =
  status :: TestStatus
  reason :: "string option"

record 'b TestRun =
  testCase :: "'b TestCase"
  runId :: string
  timestamp :: int
  steps :: "CacheStep list"
  tokenUsage :: TokenUsage
  version :: int
  executedFromCache :: bool
  state :: TestRunState

text \<open>The on-disk record. \<^verbatim>\<open>metadata.version\<close> may be a number, a legacy string, or absent.\<close>

datatype VersionField = VersionNumber int | VersionString string | VersionMissing

record CacheMetadata =
  meta_timestamp :: int
  meta_version :: VersionField
  meta_status :: TestStatus
  meta_reason :: "string option"
  meta_tokenUsage :: TokenUsage
  meta_runId :: string
  meta_executedFromCache :: bool

record CacheTest =
  test_name :: string
  test_filePath :: string

record CacheData =
  data_steps :: "CacheStep list option"

record CacheEntry =
  metadata :: CacheMetadata
  test :: CacheTest
  data :: CacheData

section \<open>TestRun\<close>

text \<open>
  Modelled from the spec: \<^verbatim>\<open>TestRunRepository.VERSION\<close>, the current schema
  version, is declared in the repository class, whose source is not part of the
  sources at hand. Every function below takes it as the parameter \<open>VERSION\<close>.
\<close>

text \<open>
  \<^verbatim>\<open>new Date()\<close> is an input: its \<^verbatim>\<open>getTime()\<close> and its \<^verbatim>\<open>toISOString()\<close>.
\<close>

record Date =
  getTime :: int
  toISOString :: string

text \<open>\<^verbatim>\<open>startedAt.toISOString().replace(/[:.]/g, "-")\<close>\<close>

definition formatStartedAt :: "string \<Rightarrow> string" where
  "formatStartedAt s = map (\<lambda>c. if c = CHR '':'' \<or> c = CHR ''.'' then CHR ''-'' else c) s"

definition initialTokenUsage :: TokenUsage where
  "initialTokenUsage = \<lparr>completionTokens = 0, promptTokens = 0, totalTokens = 0\<rparr>"

text \<open>The private constructor with the field initialisers.\<close>

definition newTestRun :: "int \<Rightarrow> 'b TestCase \<Rightarrow> string \<Rightarrow> int \<Rightarrow> bool \<Rightarrow> 'b TestRun" where
  "newTestRun VERSION tc rid ts fromCacheFlag =
     \<lparr>testCase = tc, runId = rid, timestamp = ts, steps = [],
      tokenUsage = initialTokenUsage, version = VERSION,
      executedFromCache = fromCacheFlag,
      state = \<lparr>status = pending, reason = None\<rparr>\<rparr>"

definition create :: "int \<Rightarrow> Date \<Rightarrow> 'b TestCase \<Rightarrow> 'b TestRun" where
  "create VERSION startedAt tc =
     newTestRun VERSION tc
       (formatStartedAt (toISOString startedAt) @ ''_'' @ tc_identifier tc)
       (getTime startedAt) False"

text \<open>
  \<^verbatim>\<open>parseInt(s, 10)\<close>: leading white space is skipped, then an optional sign, then
  the longest run of decimal digits; no digit gives \<^verbatim>\<open>NaN\<close>, here \<open>None\<close>.
\<close>

definition isWhiteSpace :: "char \<Rightarrow> bool" where
  "isWhiteSpace c = (c \<in> set [CHR '' '', CHR 0x09, CHR 0x0A, CHR 0x0B, CHR 0x0C, CHR 0x0D])"

definition isDigit :: "char \<Rightarrow> bool" where
  "isDigit c = (c \<in> set ''0123456789'')"

definition digitValue :: "char \<Rightarrow> nat" where
  "digitValue c = of_char c - of_char (CHR ''0'')"

definition digitsValue :: "string \<Rightarrow> nat" where
  "digitsValue ds = foldl (\<lambda>acc c. 10 * acc + digitValue c) 0 ds"

definition parseInt :: "string \<Rightarrow> int option" where
  "parseInt s =
     (let t = dropWhile isWhiteSpace s;
          neg = (case t of c # r \<Rightarrow> c = CHR ''-'' | [] \<Rightarrow> False);
          u = (case t of c # r \<Rightarrow> if c = CHR ''-'' \<or> c = CHR ''+'' then r else t | [] \<Rightarrow> t);
          ds = takeWhile isDigit u
      in if ds = [] then None
         else Some (if neg then - int (digitsValue ds) else int (digitsValue ds)))"

text \<open>
  \<^verbatim>\<open>typeof v === "string" ? parseInt(v, 10) || 0 : v || 0\<close>
\<close>

definition versionOfField :: "VersionField \<Rightarrow> int" where
  "versionOfField v =
     (case v of
        VersionString s \<Rightarrow> (case parseInt s of None \<Rightarrow> 0 | Some n \<Rightarrow> n)
      | VersionNumber n \<Rightarrow> n
      | VersionMissing \<Rightarrow> 0)"

definition fromCache :: "int \<Rightarrow> 'b TestCase \<Rightarrow> CacheEntry \<Rightarrow> 'b TestRun" where
  "fromCache VERSION tc cacheEntry =
     (let testRun = newTestRun VERSION tc (meta_runId (metadata cacheEntry))
                      (meta_timestamp (metadata cacheEntry))
                      (meta_executedFromCache (metadata cacheEntry));
          testRun = testRun\<lparr>version := versionOfField (meta_version (metadata cacheEntry))\<rparr>;
          testRun = testRun\<lparr>state := \<lparr>status = meta_status (metadata cacheEntry),
                                          reason = meta_reason (metadata cacheEntry)\<rparr>\<rparr>;
          testRun = testRun\<lparr>tokenUsage := meta_tokenUsage (metadata cacheEntry)\<rparr>
      in case data_steps (data cacheEntry) of
           Some ss \<Rightarrow> testRun\<lparr>steps := ss\<rparr>
         | None \<Rightarrow> testRun)"

definition markRunning :: "'b TestRun \<Rightarrow> thrown + 'b TestRun" where
  "markRunning r =
     (if status (state r) \<noteq> pending
      then Inl (ErrorObj ShortestError ''Can only start from pending state'')
      else Inr (r\<lparr>state := \<lparr>status = running, reason = None\<rparr>\<rparr>))"

definition setTokenUsage :: "TokenUsage option \<Rightarrow> 'b TestRun \<Rightarrow> 'b TestRun" where
  "setTokenUsage tu r = (case tu of Some u \<Rightarrow> r\<lparr>tokenUsage := u\<rparr> | None \<Rightarrow> r)"

definition markPassed :: "string \<Rightarrow> TokenUsage option \<Rightarrow> 'b TestRun \<Rightarrow> thrown + 'b TestRun" where
  "markPassed rsn tu r =
     (if status (state r) \<noteq> running
      then Inl (ErrorObj ShortestError ''Can only pass from running state'')
      else Inr (setTokenUsage tu (r\<lparr>state := \<lparr>status = passed, reason = Some rsn\<rparr>\<rparr>)))"

definition markPassedFromCache :: "string \<Rightarrow> 'b TestRun \<Rightarrow> thrown + 'b TestRun" where
  "markPassedFromCache rsn r =
     (case markPassed rsn None r of
        Inl e \<Rightarrow> Inl e
      | Inr r' \<Rightarrow> Inr (r'\<lparr>executedFromCache := True\<rparr>))"

definition markFailed :: "string \<Rightarrow> TokenUsage option \<Rightarrow> 'b TestRun \<Rightarrow> 'b TestRun" where
  "markFailed rsn tu r =
     setTokenUsage tu (r\<lparr>state := \<lparr>status = failed, reason = Some rsn\<rparr>\<rparr>)"

definition addStep :: "CacheStep \<Rightarrow> 'b TestRun \<Rightarrow> 'b TestRun" where
  "addStep step r = r\<lparr>steps := steps r @ [step]\<rparr>"

definition getSteps :: "'b TestRun \<Rightarrow> CacheStep list" where
  "getSteps r = steps r"

section \<open>The cache store\<close>

text \<open>
  The class \<^verbatim>\<open>TestRunRepository\<close> is imported by the runner and exercised by its
  test suite, but its source file is not among the sources at hand. The
  definitions of this section follow the specification of the Cache Store
  (section 4.2), with the test suite read as a cross-check.
\<close>

text \<open>
  Modelled from the spec: the file-system operations the Cache Store performs (lock
  file, cache entry files, artifact directories).
\<close>

datatype FsOp =
    LockAttempt bool
  | WriteFile string CacheEntry
  | LockRelease
  | Unlink string
  | RemoveDir string

text \<open>
  Modelled from the spec: the state of the absent \<^verbatim>\<open>TestRunRepository\<close> and of its
  directory. One repository serves one test identifier. \<open>files\<close> are the cache entries on disk
  for that identifier, by run id, in enumeration order; \<open>lockHeld\<close> says that the lock
  file of the identifier is held by another writer; \<open>memo\<close> is the memoised result of
  \<^verbatim>\<open>getRuns\<close>; \<open>fsLog\<close> records the file-system operations in the order they happen.
\<close>

record 'b Repository =
  repo_testCase :: "'b TestCase"
  files :: "(string \<times> CacheEntry) list"
  lockHeld :: bool
  memo :: "'b TestRun list option"
  fsLog :: "FsOp list"

text \<open>
  Modelled from the spec: \<^verbatim>\<open>getRuns\<close> of the absent \<^verbatim>\<open>TestRunRepository\<close>.
  It enumerates the entries on disk for the identifier, turns each into a TestRun with
  \<^verbatim>\<open>TestRun.fromCache\<close>, and memoises the collection; later calls return the
  memoised collection.
\<close>

definition getRuns :: "int \<Rightarrow> 'b Repository \<Rightarrow> 'b TestRun list \<times> 'b Repository" where
  "getRuns VERSION repo =
     (case memo repo of
        Some rs \<Rightarrow> (rs, repo)
      | None \<Rightarrow>
          (let rs = map (\<lambda>f. fromCache VERSION (repo_testCase repo) (snd f)) (files repo)
           in (rs, repo\<lparr>memo := Some rs\<rparr>)))"

text \<open>
  Modelled from the spec: \<^verbatim>\<open>getLatestPassedRun\<close> of the absent
  \<^verbatim>\<open>TestRunRepository\<close>. It filters the memoised runs to status passed, current
  version and not executed from cache, and returns the last one in enumeration order,
  or null (\<open>None\<close>) when none qualifies.
\<close>

definition getLatestPassedRun ::
  "int \<Rightarrow> 'b Repository \<Rightarrow> 'b TestRun option \<times> 'b Repository" where
  "getLatestPassedRun VERSION repo =
     (let (runs, repo') = getRuns VERSION repo;
          candidates = filter (\<lambda>run. status (state run) = passed \<and> version run = VERSION
                                  \<and> \<not> executedFromCache run) runs
      in (if candidates = [] then None else Some (last candidates), repo'))"

text \<open>
  Modelled from the spec: the serialisation of a run to a CacheEntry document inside
  the absent \<^verbatim>\<open>saveRun\<close>: metadata (timestamp, version, status, reason, tokenUsage,
  runId, executedFromCache), test (name, filePath) and data (steps). The JSON text
  between writing and reading is taken to carry these fields unchanged.
\<close>

definition toCacheEntry :: "'b TestRun \<Rightarrow> CacheEntry" where
  "toCacheEntry run =
     \<lparr>metadata =
        \<lparr>meta_timestamp = timestamp run,
         meta_version = VersionNumber (version run),
         meta_status = status (state run),
         meta_reason = reason (state run),
         meta_tokenUsage = tokenUsage run,
         meta_runId = runId run,
         meta_executedFromCache = executedFromCache run\<rparr>,
      test = \<lparr>test_name = name (testCase run), test_filePath = filePath (testCase run)\<rparr>,
      data = \<lparr>data_steps = Some (getSteps run)\<rparr>\<rparr>"

text \<open>
  Modelled from the spec: \<^verbatim>\<open>saveRun\<close> of the absent \<^verbatim>\<open>TestRunRepository\<close>.
  It attempts the exclusive lock of the identifier; on contention the save is skipped,
  with no retry and no queue; otherwise the run is serialised to a CacheEntry document
  named by its run id, written, and the lock is released. A document of the same name
  is overwritten; a new one comes last in the enumeration.
\<close>

definition saveRun :: "'b Repository \<Rightarrow> 'b TestRun \<Rightarrow> 'b Repository" where
  "saveRun repo run =
     (if lockHeld repo
      then repo\<lparr>fsLog := fsLog repo @ [LockAttempt False]\<rparr>
      else repo\<lparr>files := AList.update (runId run) (toCacheEntry run) (files repo),
                 fsLog := fsLog repo @ [LockAttempt True,
                                        WriteFile (runId run) (toCacheEntry run),
                                        LockRelease]\<rparr>)"

text \<open>
  Modelled from the spec: \<^verbatim>\<open>deleteRun\<close> of the absent \<^verbatim>\<open>TestRunRepository\<close>:
  best-effort removal of the run's file and of its artifact directory, errors
  swallowed.
\<close>

definition deleteRun :: "'b Repository \<Rightarrow> 'b TestRun \<Rightarrow> 'b Repository" where
  "deleteRun repo run =
     repo\<lparr>files := AList.delete (runId run) (files repo),
          fsLog := fsLog repo @ [Unlink (runId run), RemoveDir (runId run)]\<rparr>"

text \<open>
  Modelled from the spec: the choice of "the single most-recently-timestamped" run in
  step 4 of the retention policy of the absent \<^verbatim>\<open>TestRunRepository\<close>; \<open>newerOf\<close>
  compares two runs, and among equal timestamps the first in enumeration order stays.
\<close>

definition newerOf :: "'b TestRun \<Rightarrow> 'b TestRun \<Rightarrow> 'b TestRun" where
  "newerOf best x = (if timestamp best < timestamp x then x else best)"

text \<open>
  Modelled from the spec: the most recently timestamped run of a list, for step 4 of
  the retention policy of the absent \<^verbatim>\<open>TestRunRepository\<close>; none for the empty list.
\<close>

definition mostRecentRun :: "'b TestRun list \<Rightarrow> 'b TestRun option" where
  "mostRecentRun rs = (case rs of [] \<Rightarrow> None | r # rest \<Rightarrow> Some (foldl newerOf r rest))"

text \<open>
  Modelled from the spec: the runs that \<^verbatim>\<open>applyRetentionPolicy\<close> of the absent
  \<^verbatim>\<open>TestRunRepository\<close> deletes, in the four steps of the specification: (1) delete every
  run whose version is not the current one; (2) split the remaining runs into
  cache-executed ones, which the policy leaves alone, and the others; (3) if there is
  a latest passed run (as \<^verbatim>\<open>getLatestPassedRun\<close> gives it, which the test suite
  stubs to steer this step), keep exactly that run and delete every other
  non-cache-executed run; (4) otherwise keep only the most recently timestamped
  non-cache-executed run. Runs are told apart by their run id.
\<close>

definition runsToDelete :: "int \<Rightarrow> 'b TestRun list \<Rightarrow> 'b TestRun option \<Rightarrow> 'b TestRun list" where
  "runsToDelete VERSION runs latestPassed =
     (let outdated = filter (\<lambda>run. version run \<noteq> VERSION) runs;
          remaining = filter (\<lambda>run. version run = VERSION) runs;
          nonCache = filter (\<lambda>run. \<not> executedFromCache run) remaining
      in outdated @
         (case latestPassed of
            Some p \<Rightarrow> filter (\<lambda>run. runId run \<noteq> runId p) nonCache
          | None \<Rightarrow>
              (case mostRecentRun nonCache of
                 None \<Rightarrow> []
               | Some m \<Rightarrow> filter (\<lambda>run. runId run \<noteq> runId m) nonCache)))"

text \<open>
  Modelled from the spec: \<^verbatim>\<open>applyRetentionPolicy\<close> of the absent
  \<^verbatim>\<open>TestRunRepository\<close>: it loads the runs, asks for the latest passed run, and
  deletes the runs that the four steps single out. The result is the list of runs
  handed to \<^verbatim>\<open>deleteRun\<close>, in order, and the repository afterwards.
\<close>

definition applyRetentionPolicy ::
  "int \<Rightarrow> 'b Repository \<Rightarrow> 'b TestRun list \<times> 'b Repository" where
  "applyRetentionPolicy VERSION repo =
     (let (runs, repo1) = getRuns VERSION repo;
          (latestPassed, repo2) = getLatestPassedRun VERSION repo1;
          doomed = runsToDelete VERSION runs latestPassed
      in (doomed, foldl deleteRun repo2 doomed))"

section \<open>The runner\<close>

text \<open>
  The collaborators of \<^verbatim>\<open>TestRunner\<close> are parameters. \<^verbatim>\<open>BrowserTool.execute\<close>
  returns a result or throws, and changes the browser either way;
  \<^verbatim>\<open>getNormalizedComponentStringByCoords\<close> reads the page and may throw;
  \<^verbatim>\<open>page.goto\<close> may throw; \<^verbatim>\<open>AIClient.runAction\<close> returns the verdict or
  throws, changes the browser, and appends the steps it took to the run it was
  constructed with.
\<close>

record ToolResult =
  tool_output :: "string option"
  window_url :: "string option"
  window_title :: "string option"

datatype AIStatus = AIPassed | AIFailed | AIOther string

record AIClientResponse =
  ai_status :: AIStatus
  ai_reason :: string
  ai_usage :: TokenUsage

record 'b env =
  toolExecute :: "'b \<Rightarrow> ActionInput \<Rightarrow> (thrown + ToolResult) \<times> 'b"
  componentStrByCoords :: "'b \<Rightarrow> int \<Rightarrow> int \<Rightarrow> thrown + string"
  pageGoto :: "'b \<Rightarrow> string option \<Rightarrow> thrown option \<times> 'b"
  runAction :: "'b \<Rightarrow> string \<Rightarrow> (thrown + AIClientResponse) \<times> 'b \<times> CacheStep list"

record config =
  caching_enabled :: bool

text \<open>What the runner does to the outside, in order.\<close>

datatype event =
    EvExecute ActionInput
  | EvComponentStr int int
  | EvGoto "string option"
  | EvDelay nat
  | EvFn
  | EvBeforeFn
  | EvAfterFn
  | EvBeforeEach
  | EvAfterEach
  | EvRunAction string
  | EvReplayAttempt

record 'b world =
  browser :: 'b
  events :: "event list"
  repo :: "'b Repository"

definition invoke :: "event \<Rightarrow> 'b callback \<Rightarrow> 'b world \<Rightarrow> thrown option \<times> 'b world" where
  "invoke ev cb w =
     (case cb (browser w) of
        (r, b') \<Rightarrow> (r, w\<lparr>browser := b', events := events w @ [ev]\<rparr>))"

definition invokeOpt ::
  "event \<Rightarrow> 'b callback option \<Rightarrow> 'b world \<Rightarrow> thrown option \<times> 'b world" where
  "invokeOpt ev cbo w = (case cbo of None \<Rightarrow> (None, w) | Some cb \<Rightarrow> invoke ev cb w)"

definition execute :: "'b env \<Rightarrow> ActionInput \<Rightarrow> 'b world \<Rightarrow> (thrown + ToolResult) \<times> 'b world" where
  "execute env inp w =
     (case toolExecute env (browser w) inp of
        (r, b') \<Rightarrow> (r, w\<lparr>browser := b', events := events w @ [EvExecute inp]\<rparr>))"

definition screenshotInput :: ActionInput where
  "screenshotInput =
     \<lparr>action = SCREENSHOT, coordinate = None, coordinates = None, text_field = None,
      url = None, duration = None\<rparr>"

subsection \<open>Cached replay\<close>

text \<open>
  The body of the replay loop up to the execution of the step: the settling delay,
  then, for a \<^verbatim>\<open>mouse_move\<close> with a recorded \<^verbatim>\<open>coordinate\<close>, the comparison of
  the component string now at the coordinate with \<^verbatim>\<open>step.extras.componentStr\<close>.
  Reading \<^verbatim>\<open>componentStr\<close> of an absent \<^verbatim>\<open>extras\<close> is a TypeError of the
  engine.
\<close>

text \<open>
  The message of the engine for \<^verbatim>\<open>undefined.componentStr\<close>; the quotation marks
  around the property name are the character 0x27.
\<close>

definition typeErrorMessage :: string where
  "typeErrorMessage =
     ''Cannot read properties of undefined (reading '' @ [CHR 0x27] @ ''componentStr''
       @ [CHR 0x27] @ '')''"

definition checkStep :: "'b env \<Rightarrow> CacheStep \<Rightarrow> 'b world \<Rightarrow> thrown option \<times> 'b world" where
  "checkStep env step w =
     (case step_action step of
        None \<Rightarrow> (None, w)
      | Some a \<Rightarrow>
          (if action (input a) = MOUSE_MOVE \<and> coordinate (input a) \<noteq> None
           then
             (case coordinate (input a) of
                None \<Rightarrow> (None, w)
              | Some (x, y) \<Rightarrow>
                  (let w1 = w\<lparr>events := events w @ [EvComponentStr x y]\<rparr>
                   in case componentStrByCoords env (browser w) x y of
                        Inl e \<Rightarrow> (Some e, w1)
                      | Inr str \<Rightarrow>
                          (case extras step of
                             None \<Rightarrow>
                               (Some (ErrorObj TypeError typeErrorMessage), w1)
                           | Some ex \<Rightarrow>
                               (if Some str \<noteq> componentStr ex
                                then (Some (ErrorObj (CacheError invalid)
                                        ''UI element mismatch''), w1)
                                else (None, w1)))))
           else (None, w)))"

definition executeStep :: "'b env \<Rightarrow> CacheStep \<Rightarrow> 'b world \<Rightarrow> thrown option \<times> 'b world" where
  "executeStep env step w =
     (case step_action step of
        None \<Rightarrow> (None, w)
      | Some a \<Rightarrow>
          (case execute env (input a) w of
             (Inl e, w1) \<Rightarrow>
               (Some (ErrorObj (CacheError invalid) ''Error executing cached step''), w1)
           | (Inr res, w1) \<Rightarrow> (None, w1)))"

fun replaySteps :: "'b env \<Rightarrow> CacheStep list \<Rightarrow> 'b world \<Rightarrow> thrown option \<times> 'b world" where
  "replaySteps env [] w = (None, w)"
| "replaySteps env (step # rest) w =
     (case checkStep env step (w\<lparr>events := events w @ [EvDelay 1000]\<rparr>) of
        (Some e, w1) \<Rightarrow> (Some e, w1)
      | (None, w1) \<Rightarrow>
          (case executeStep env step w1 of
             (Some e, w2) \<Rightarrow> (Some e, w2)
           | (None, w2) \<Rightarrow> replaySteps env rest w2))"

text \<open>\<^verbatim>\<open>step.action?.input.action !== InternalActionEnum.SCREENSHOT.toString()\<close>\<close>

definition notScreenshot :: "CacheStep \<Rightarrow> bool" where
  "notScreenshot step =
     (case step_action step of None \<Rightarrow> True | Some a \<Rightarrow> action (input a) \<noteq> SCREENSHOT)"

definition runCachedTest ::
  "int \<Rightarrow> 'b env \<Rightarrow> 'b world \<Rightarrow> 'b TestRun \<Rightarrow> thrown option \<times> 'b world \<times> 'b TestRun" where
  "runCachedTest VERSION env w testRun =
     (case getLatestPassedRun VERSION (repo w) of
        (latestRun, repo') \<Rightarrow>
          (let w1 = w\<lparr>events := events w @ [EvReplayAttempt], repo := repo'\<rparr>
           in case latestRun of
                None \<Rightarrow>
                  (Some (ErrorObj (CacheError not_found)
                     ''No successful cached test run found''), w1, testRun)
              | Some latest \<Rightarrow>
                  (let filteredSteps = filter notScreenshot (steps latest)
                   in if filteredSteps = []
                      then (Some (ErrorObj (CacheError invalid)
                              ''No eligible steps in cache''), w1, testRun)
                      else
                        (case replaySteps env filteredSteps w1 of
                           (Some e, w2) \<Rightarrow> (Some e, w2, testRun)
                         | (None, w2) \<Rightarrow>
                             (case markPassedFromCache
                                     ''All actions successfully replayed from cache'' testRun of
                                Inl e \<Rightarrow> (Some e, w2, testRun)
                              | Inr run' \<Rightarrow> (None, w2, run'))))))"

subsection \<open>Executing one test\<close>

text \<open>\<^verbatim>\<open>${testRun.reason}\<close> inside a template string.\<close>

definition reasonText :: "'b TestRun \<Rightarrow> string" where
  "reasonText r = (case reason (state r) of None \<Rightarrow> ''undefined'' | Some s \<Rightarrow> s)"

text \<open>The direct-execution branch.\<close>

definition executeDirect ::
  "'b world \<Rightarrow> 'b TestRun \<Rightarrow> thrown option \<times> 'b world \<times> 'b TestRun" where
  "executeDirect w testRun =
     (let directReason = (\<lambda>e. case e of ErrorObj c m \<Rightarrow> m
                                | NonError v \<Rightarrow> ''Direct execution failed'')
      in case invokeOpt EvFn (fn (testCase testRun)) w of
           (Some e, w1) \<Rightarrow> (None, w1, markFailed (directReason e) None testRun)
         | (None, w1) \<Rightarrow>
             (case markPassed ''Direct execution successful'' None testRun of
                Inr run' \<Rightarrow> (None, w1, run')
              | Inl e \<Rightarrow> (None, w1, markFailed (directReason e) None testRun)))"

text \<open>The after callback following a successful replay.\<close>

definition afterCached ::
  "'b world \<Rightarrow> 'b TestRun \<Rightarrow> thrown option \<times> 'b world \<times> 'b TestRun" where
  "afterCached w testRun =
     (case afterFn (testCase testRun) of
        None \<Rightarrow> (None, w, testRun)
      | Some f \<Rightarrow>
          (case invoke EvAfterFn f w of
             (None, w1) \<Rightarrow> (None, w1, testRun)
           | (Some e, w1) \<Rightarrow>
               (None, w1,
                markFailed
                  (if status (state testRun) = failed
                   then ''AI: '' @ reasonText testRun @ '', After: '' @ messageOrString e
                   else messageOrString e)
                  None testRun)))"

text \<open>Decimal digits of a natural number, for the numbering of expectations.\<close>

fun showNat :: "nat \<Rightarrow> string" where
  "showNat n =
     (if n < 10 then [char_of (of_char (CHR ''0'') + n)]
      else showNat (n div 10) @ [char_of (of_char (CHR ''0'') + n mod 10)])"

definition callbackTag :: "'a option \<Rightarrow> string \<Rightarrow> string \<Rightarrow> string" where
  "callbackTag f yes no = (case f of Some g \<Rightarrow> yes | None \<Rightarrow> no)"

definition orUnknown :: "string option \<Rightarrow> string" where
  "orUnknown v = (case v of None \<Rightarrow> ''unknown'' | Some s \<Rightarrow> if s = [] then ''unknown'' else s)"

definition joinLines :: "string list \<Rightarrow> string" where
  "joinLines ls = (case ls of [] \<Rightarrow> [] | l # rest \<Rightarrow> foldl (\<lambda>acc x. acc @ [CHR 0x0A] @ x) l rest)"

text \<open>
  The prompt of the live path. \<open>payload\<close> of the test case holds
  \<^verbatim>\<open>JSON.stringify(testCase.payload)\<close> when a payload is present.
\<close>

definition buildPrompt :: "'b TestCase \<Rightarrow> ToolResult \<Rightarrow> string" where
  "buildPrompt tc initialState =
     joinLines (filter (\<lambda>l. l \<noteq> [])
       ([''Test: '' @ [CHR 0x22] @ name tc @ [CHR 0x22],
         (case payload tc of Some j \<Rightarrow> ''Context: '' @ j | None \<Rightarrow> []),
         ''Callback function: '' @ callbackTag (fn tc) '' [HAS_CALLBACK]'' '' [NO_CALLBACK]'']
        @ (if expectations tc \<noteq> []
           then [CHR 0x0A # ''Expect:'']
                @ map (\<lambda>(i, ex). showNat (i + 1) @ ''. '' @ description ex
                                  @ callbackTag (exp_fn ex) '' [HAS_CALLBACK]'' ''[NO_CALLBACK]'')
                      (zip [0 ..< length (expectations tc)] (expectations tc))
           else [CHR 0x0A # ''Expect:'',
                 ''1. '' @ [CHR 0x22] @ name tc @ [CHR 0x22] @ '' expected to be successful''])
        @ [CHR 0x0A # ''Current Page State:'',
           ''URL: '' @ orUnknown (window_url initialState),
           ''Title: '' @ orUnknown (window_title initialState)]))"

text \<open>The live path: before callback, the AI client, after callback, the verdict.\<close>

definition executeLive ::
  "'b env \<Rightarrow> ToolResult \<Rightarrow> 'b world \<Rightarrow> 'b TestRun \<Rightarrow> thrown option \<times> 'b world \<times> 'b TestRun" where
  "executeLive env initialState w testRun =
     (case invokeOpt EvBeforeFn (beforeFn (testCase testRun)) w of
        (Some e, w1) \<Rightarrow> (None, w1, markFailed (messageOrString e) None testRun)
      | (None, w1) \<Rightarrow>
          (let prompt = buildPrompt (testCase testRun) initialState
           in case runAction env (browser w1) prompt of
                (outcome, b2, newSteps) \<Rightarrow>
                  (let w2 = w1\<lparr>browser := b2, events := events w1 @ [EvRunAction prompt]\<rparr>;
                       run2 = foldl (\<lambda>r st. addStep st r) testRun newSteps
                   in case outcome of
                        Inl e \<Rightarrow> (Some e, w2, run2)
                      | Inr aiResponse \<Rightarrow>
                          (case invokeOpt EvAfterFn (afterFn (testCase testRun)) w2 of
                             (Some e, w3) \<Rightarrow>
                               (None, w3,
                                markFailed
                                  (if ai_status aiResponse = AIFailed
                                   then ''AI: '' @ ai_reason aiResponse @ '', After: ''
                                        @ messageOrString e
                                   else messageOrString e)
                                  (Some (ai_usage aiResponse)) run2)
                           | (None, w3) \<Rightarrow>
                               (case ai_status aiResponse of
                                  AIPassed \<Rightarrow>
                                    (case markPassed (ai_reason aiResponse)
                                            (Some (ai_usage aiResponse)) run2 of
                                       Inl e \<Rightarrow> (Some e, w3, run2)
                                     | Inr run3 \<Rightarrow> (None, w3, run3))
                                | AIFailed \<Rightarrow>
                                    (None, w3,
                                     markFailed (ai_reason aiResponse)
                                       (Some (ai_usage aiResponse)) run2)
                                | AIOther st \<Rightarrow>
                                    (Some (ErrorObj ShortestError
                                       (''Unexpected AI response status: '' @ st)),
                                     w3, run2))))))"

text \<open>
  \<^verbatim>\<open>TestRunner.executeTest\<close>. The call made in the handler of a cache error is the
  recursive call with \<^verbatim>\<open>skipCache\<close> set.
\<close>

function executeTest ::
  "int \<Rightarrow> 'b env \<Rightarrow> config \<Rightarrow> bool \<Rightarrow> 'b world \<Rightarrow> 'b TestRun
     \<Rightarrow> thrown option \<times> 'b world \<times> 'b TestRun" where
  "executeTest VERSION env cfg skipCache w testRun =
     (if directExecution (testCase testRun) then executeDirect w testRun
      else
        (case execute env screenshotInput w of
           (Inl e, w1) \<Rightarrow> (Some e, w1, testRun)
         | (Inr initialState, w1) \<Rightarrow>
             (if caching_enabled cfg \<and> \<not> skipCache
              then
                (case runCachedTest VERSION env w1 testRun of
                   (None, w2, run2) \<Rightarrow> afterCached w2 run2
                 | (Some e, w2, run2) \<Rightarrow>
                     (if \<not> instanceofCacheError e then (Some e, w2, run2)
                      else
                        (case pageGoto env (browser w2) (window_url initialState) of
                           (Some e', b3) \<Rightarrow>
                             (Some e',
                              w2\<lparr>browser := b3,
                                 events := events w2 @ [EvGoto (window_url initialState)]\<rparr>,
                              run2)
                         | (None, b3) \<Rightarrow>
                             executeTest VERSION env cfg True
                               (w2\<lparr>browser := b3,
                                   events := events w2 @ [EvGoto (window_url initialState)]\<rparr>)
                               run2)))
              else executeLive env initialState w1 testRun)))"
  by pat_completeness auto
termination
  by (relation "measure (\<lambda>(VERSION, env, cfg, skipCache, w, testRun). if skipCache then 0 else 1)")
     auto

declare executeTest.simps [simp del]

subsection \<open>One test case of a file\<close>

fun runHooks :: "event \<Rightarrow> 'b callback list \<Rightarrow> 'b world \<Rightarrow> thrown option \<times> 'b world" where
  "runHooks ev [] w = (None, w)"
| "runHooks ev (h # hs) w =
     (case invoke ev h w of
        (Some e, w1) \<Rightarrow> (Some e, w1)
      | (None, w1) \<Rightarrow> runHooks ev hs w1)"

text \<open>
  The body of the loop over the test cases in \<^verbatim>\<open>TestRunner.executeTestFile\<close>:
  the before-each hooks, a fresh run marked running, the execution, the after-each
  hooks, \<^verbatim>\<open>saveRun\<close>, \<^verbatim>\<open>applyRetentionPolicy\<close>. A thrown value leaves the body.
\<close>

definition executeTestCase ::
  "int \<Rightarrow> 'b env \<Rightarrow> config \<Rightarrow> 'b callback list \<Rightarrow> 'b callback list \<Rightarrow> Date
     \<Rightarrow> 'b TestCase \<Rightarrow> 'b world \<Rightarrow> thrown option \<times> 'b world \<times> 'b TestRun option" where
  "executeTestCase VERSION env cfg beforeEachFns afterEachFns startedAt tc w =
     (case runHooks EvBeforeEach beforeEachFns w of
        (Some e, w1) \<Rightarrow> (Some e, w1, None)
      | (None, w1) \<Rightarrow>
          (let testRun = create VERSION startedAt tc
           in case markRunning testRun of
                Inl e \<Rightarrow> (Some e, w1, Some testRun)
              | Inr run1 \<Rightarrow>
                  (case executeTest VERSION env cfg False w1 run1 of
                     (Some e, w2, run2) \<Rightarrow> (Some e, w2, Some run2)
                   | (None, w2, run2) \<Rightarrow>
                       (case runHooks EvAfterEach afterEachFns w2 of
                          (Some e, w3) \<Rightarrow> (Some e, w3, Some run2)
                        | (None, w3) \<Rightarrow>
                            (let w4 = w3\<lparr>repo := saveRun (repo w3) run2\<rparr>;
                                 w5 = w4\<lparr>repo := snd (applyRetentionPolicy VERSION (repo w4))\<rparr>
                             in (None, w5, Some run2))))))"

section \<open>Sample data\<close>

definition sampleTestCase :: "nat TestCase" where
  "sampleTestCase =
     \<lparr>name = ''Test case'', filePath = ''/test.ts'', tc_identifier = ''test-identifier'',
      payload = None, fn = None, directExecution = False, expectations = [],
      beforeFn = None, afterFn = None\<rparr>"

definition sampleDate :: Date where
  "sampleDate = \<lparr>getTime = 1672531200000, toISOString = ''2023-01-01T00:00:00.000Z''\<rparr>"

definition sampleRun :: "nat TestRun" where
  "sampleRun = create 2 sampleDate sampleTestCase"

definition mkRun :: "string \<Rightarrow> int \<Rightarrow> int \<Rightarrow> bool \<Rightarrow> TestStatus \<Rightarrow> string \<Rightarrow> nat TestRun" where
  "mkRun rid ts ver fc st rsn =
     sampleRun\<lparr>runId := rid, timestamp := ts, version := ver, executedFromCache := fc,
               state := \<lparr>status = st, reason = Some rsn\<rparr>\<rparr>"

definition emptyRepo :: "nat Repository" where
  "emptyRepo = \<lparr>repo_testCase = sampleTestCase, files = [], lockHeld = False, memo = None,
                fsLog = []\<rparr>"

text \<open>A repository whose directory holds the given runs, serialised.\<close>

definition repoOf :: "nat TestRun list \<Rightarrow> nat Repository" where
  "repoOf rs = emptyRepo\<lparr>files := map (\<lambda>r. (runId r, toCacheEntry r)) rs\<rparr>"

text \<open>The five runs of the repository test of \<^verbatim>\<open>getLatestPassedRun\<close>, schema version 2.\<close>

definition fiveRuns :: "nat TestRun list" where
  "fiveRuns =
     [mkRun ''run1'' 5000 1 False passed ''Invalid - wrong version'',
      mkRun ''run2'' 4000 2 False failed ''Invalid - failed status'',
      mkRun ''run3'' 3000 2 True passed ''Invalid - executed from cache'',
      mkRun ''run4'' 2000 2 False passed ''Valid run - first'',
      mkRun ''run5'' 1000 2 False passed ''Valid run - last'']"

text \<open>
  The mixed scenario of the retention policy: outdated and passed, current and failed,
  current and passed, current, cache-executed and passed.
\<close>

definition mixedRuns :: "nat TestRun list" where
  "mixedRuns =
     [mkRun ''outdated'' 100 1 False passed ''old schema'',
      mkRun ''failed'' 200 2 False failed ''did not pass'',
      mkRun ''passed'' 300 2 False passed ''did pass'',
      mkRun ''cached'' 400 2 True passed ''replayed'']"

text \<open>No passed run: a cache-executed run at 3000, regular runs at 2000 and 1000.\<close>

definition failedRuns :: "nat TestRun list" where
  "failedRuns =
     [mkRun ''from-cache-run'' 3000 2 True failed ''f'',
      mkRun ''regular-run'' 2000 2 False failed ''f'',
      mkRun ''older-run'' 1000 2 False failed ''f'']"

text \<open>A run replayed under the previous schema version.\<close>

definition oldReplayRuns :: "nat TestRun list" where
  "oldReplayRuns = [mkRun ''old-replay'' 100 1 True passed ''replayed under the old schema'']"

definition sampleUsage :: TokenUsage where
  "sampleUsage = \<lparr>completionTokens = 10, promptTokens = 20, totalTokens = 30\<rparr>"

definition sampleStep :: "string \<Rightarrow> InternalActionEnum \<Rightarrow> CacheStep" where
  "sampleStep why act =
     \<lparr>reasoning = why,
      step_action = Some \<lparr>action_type = ''tool_use'', action_name = ''computer'',
                          input = \<lparr>action = act, coordinate = None, coordinates = None,
                                   text_field = None, url = None, duration = None\<rparr>\<rparr>,
      step_timestamp = 0, result = None, extras = None\<rparr>"

text \<open>The events a replay of recorded steps can cause, and those of the live path.\<close>

fun replayEvent :: "event \<Rightarrow> bool" where
  "replayEvent (EvDelay n) = True"
| "replayEvent (EvComponentStr x y) = True"
| "replayEvent (EvExecute i) = True"
| "replayEvent ev = False"

fun liveEvent :: "event \<Rightarrow> bool" where
  "liveEvent (EvExecute i) = True"
| "liveEvent EvFn = True"
| "liveEvent EvBeforeFn = True"
| "liveEvent EvAfterFn = True"
| "liveEvent (EvRunAction p) = True"
| "liveEvent ev = False"

text \<open>
  A browser that counts the actions performed on it. Every action succeeds, the element
  under any point is a button, navigation resets the counter, and the AI client
  passes the test without recording a step.
\<close>

definition sampleToolResult :: ToolResult where
  "sampleToolResult =
     \<lparr>tool_output = None, window_url = Some ''http://localhost:3000'',
      window_title = Some ''Home''\<rparr>"

definition sampleEnv :: "nat env" where
  "sampleEnv =
     \<lparr>toolExecute = (\<lambda>b inp. (Inr sampleToolResult, Suc b)),
      componentStrByCoords = (\<lambda>b x y. Inr ''<button>Go</button>''),
      pageGoto = (\<lambda>b u. (None, 0)),
      runAction = (\<lambda>b prompt.
        (Inr \<lparr>ai_status = AIPassed, ai_reason = ''primary ok'', ai_usage = sampleUsage\<rparr>,
         Suc b, []))\<rparr>"

definition sampleWorld :: "nat Repository \<Rightarrow> nat world" where
  "sampleWorld rp = \<lparr>browser = 0, events = [], repo = rp\<rparr>"

definition cachingOn :: config where
  "cachingOn = \<lparr>caching_enabled = True\<rparr>"

definition cachingOff :: config where
  "cachingOff = \<lparr>caching_enabled = False\<rparr>"

text \<open>A recorded pointer move to (10, 20) over the given component string.\<close>

definition moveStep :: "string \<Rightarrow> CacheStep" where
  "moveStep cs =
     \<lparr>reasoning = ''Moving'',
      step_action = Some \<lparr>action_type = ''tool_use'', action_name = ''computer'',
                          input = \<lparr>action = MOUSE_MOVE, coordinate = Some (10, 20),
                                   coordinates = None, text_field = None, url = None,
                                   duration = None\<rparr>\<rparr>,
      step_timestamp = 0, result = None, extras = Some \<lparr>componentStr = Some cs\<rparr>\<rparr>"

text \<open>A passed run on disk whose recorded steps are the given ones.\<close>

definition recordedRun :: "CacheStep list \<Rightarrow> nat TestRun" where
  "recordedRun ss = (mkRun ''recorded'' 500 2 False passed ''ok'')\<lparr>steps := ss\<rparr>"

definition runningRun :: "nat TestCase \<Rightarrow> nat TestRun" where
  "runningRun tc = (create 2 sampleDate tc)\<lparr>state := \<lparr>status = running, reason = None\<rparr>\<rparr>"

text \<open>An after callback that throws an \<^verbatim>\<open>Error\<close> with the message "hook boom".\<close>

definition throwingAfter :: "nat TestCase" where
  "throwingAfter =
     sampleTestCase\<lparr>afterFn := Some (\<lambda>b. (Some (ErrorObj PlainError ''hook boom''), b))\<rparr>"

text \<open>Before and after callbacks that return.\<close>

definition withCallbacks :: "nat TestCase" where
  "withCallbacks =
     sampleTestCase\<lparr>beforeFn := Some (\<lambda>b. (None, b)), afterFn := Some (\<lambda>b. (None, b))\<rparr>"

text \<open>
  A repository whose passed run recorded three steps: typing, a pointer move over a
  link, a click. The element now under the pointer is the button of \<open>sampleEnv\<close>.
\<close>

definition staleSteps :: "CacheStep list" where
  "staleSteps =
     [sampleStep ''Typing'' TYPE', moveStep ''<a>Old</a>'', sampleStep ''Clicking'' LEFT_CLICK]"

definition staleRepo :: "nat Repository" where
  "staleRepo = repoOf [recordedRun staleSteps]"

text \<open>
  A recorded pointer move to (10, 20) without an \<^verbatim>\<open>extras\<close> object, and a
  repository whose passed run recorded that step alone.
\<close>

definition bareMoveStep :: CacheStep where
  "bareMoveStep = (moveStep [])\<lparr>extras := None\<rparr>"

definition bareRepo :: "nat Repository" where
  "bareRepo = repoOf [recordedRun [bareMoveStep]]"

text \<open>A repository whose passed run recorded one typing step.\<close>

definition freshRepo :: "nat Repository" where
  "freshRepo = repoOf [recordedRun [sampleStep ''Typing'' TYPE']]"

text \<open>An AI client whose verdict is failed, with the reason "primary bad".\<close>

definition failingEnv :: "nat env" where
  "failingEnv =
     sampleEnv\<lparr>runAction := (\<lambda>b prompt.
        (Inr \<lparr>ai_status = AIFailed, ai_reason = ''primary bad'', ai_usage = sampleUsage\<rparr>,
         Suc b, []))\<rparr>"

text \<open>The run of the sample test case after a clean replay.\<close>

definition replayedRun :: "nat TestCase \<Rightarrow> nat TestRun" where
  "replayedRun tc =
     (runningRun tc)
       \<lparr>state := \<lparr>status = passed,
                   reason = Some ''All actions successfully replayed from cache''\<rparr>,
        executedFromCache := True\<rparr>"

definition typeInput :: ActionInput where
  "typeInput =
     \<lparr>action = TYPE', coordinate = None, coordinates = None, text_field = None,
      url = None, duration = None\<rparr>"

section \<open>The state machine of a TestRun\<close>

lemma sampleRun_state: "state sampleRun = \<lparr>status = pending, reason = None\<rparr>"
  by (simp add: sampleRun_def create_def newTestRun_def)

text \<open>A cache entry whose version is the string "1" loads with the version 1.\<close>

lemma legacy_version_string:
  "versionOfField (VersionString ''1'') = 1"
  "versionOfField (VersionString ''abc'') = 0"
  "versionOfField (VersionString '' -12px'') = - 12"
  by (simp_all add: versionOfField_def parseInt_def isWhiteSpace_def isDigit_def
      digitsValue_def digitValue_def)

text \<open>
  C6. \<^verbatim>\<open>markRunning\<close> succeeds exactly from \<open>pending\<close> and otherwise throws
  "Can only start from pending state"; \<^verbatim>\<open>markPassed\<close> succeeds exactly from
  \<open>running\<close> and otherwise throws "Can only pass from running state";
  \<^verbatim>\<open>markFailed\<close> never throws: from every state it leaves the run failed with the
  given reason.
\<close>

theorem transition_guards:
  "((\<exists>r'. markRunning r = Inr r') \<longleftrightarrow> status (state r) = pending)
   \<and> (status (state r) = pending \<longrightarrow>
        markRunning r = Inr (r\<lparr>state := \<lparr>status = running, reason = None\<rparr>\<rparr>))
   \<and> (status (state r) \<noteq> pending \<longrightarrow>
        markRunning r = Inl (ErrorObj ShortestError ''Can only start from pending state''))
   \<and> ((\<exists>r'. markPassed rsn tu r = Inr r') \<longleftrightarrow> status (state r) = running)
   \<and> (status (state r) = running \<longrightarrow>
        (\<exists>r'. markPassed rsn tu r = Inr r'
              \<and> state r' = \<lparr>status = passed, reason = Some rsn\<rparr>))
   \<and> (status (state r) \<noteq> running \<longrightarrow>
        markPassed rsn tu r = Inl (ErrorObj ShortestError ''Can only pass from running state''))
   \<and> state (markFailed rsn tu r) = \<lparr>status = failed, reason = Some rsn\<rparr>"
  by (simp add: markRunning_def markPassed_def markFailed_def setTokenUsage_def
      split: option.splits)

theorem transition_guards_witness:
  "status (state sampleRun) = pending
   \<and> markRunning sampleRun = Inr (sampleRun\<lparr>state := \<lparr>status = running, reason = None\<rparr>\<rparr>)
   \<and> status (state sampleRun) \<noteq> running
   \<and> markPassed ''test passed'' None sampleRun
       = Inl (ErrorObj ShortestError ''Can only pass from running state'')
   \<and> state (markFailed ''test failed'' None sampleRun)
       = \<lparr>status = failed, reason = Some ''test failed''\<rparr>"
  using transition_guards [of sampleRun "''test passed''" None]
    transition_guards [of sampleRun "''test failed''" None]
  by (simp add: sampleRun_state)

section \<open>The cache store: loading and selecting runs\<close>


lemma getRuns_idem: "getRuns V (snd (getRuns V rp)) = (fst (getRuns V rp), snd (getRuns V rp))"
  by (simp add: getRuns_def Let_def split: option.splits)

lemma getLatestPassedRun_fst:
  "fst (getLatestPassedRun V rp) =
     (let c = filter (\<lambda>run. status (state run) = passed \<and> version run = V \<and> \<not> executedFromCache run)
                (fst (getRuns V rp))
      in if c = [] then None else Some (last c))"
  by (simp add: getLatestPassedRun_def Let_def split: prod.splits)

lemma getLatestPassedRun_after_getRuns:
  "fst (getLatestPassedRun V (snd (getRuns V rp))) = fst (getLatestPassedRun V rp)"
  by (simp add: getLatestPassedRun_fst getRuns_idem)

lemma applyRetentionPolicy_fst:
  "fst (applyRetentionPolicy V rp) =
     runsToDelete V (fst (getRuns V rp)) (fst (getLatestPassedRun V rp))"
proof -
  obtain runs rp1 where g: "getRuns V rp = (runs, rp1)" by (cases "getRuns V rp")
  obtain l rp2 where h: "getLatestPassedRun V rp1 = (l, rp2)" by (cases "getLatestPassedRun V rp1")
  from g have "rp1 = snd (getRuns V rp)" by simp
  with h have "l = fst (getLatestPassedRun V rp)"
    using getLatestPassedRun_after_getRuns [of V rp] by simp
  with g h show ?thesis by (simp add: applyRetentionPolicy_def Let_def)
qed

lemma foldl_newerOf_mem: "foldl newerOf b xs \<in> set (b # xs)"
  by (induction xs arbitrary: b) (auto simp: newerOf_def)

lemma foldl_newerOf_ge: "timestamp b \<le> timestamp (foldl newerOf b xs)"
proof (induction xs arbitrary: b)
  case Nil show ?case by simp
next
  case (Cons x xs)
  have "timestamp b \<le> timestamp (newerOf b x)" by (simp add: newerOf_def)
  also have "\<dots> \<le> timestamp (foldl newerOf (newerOf b x) xs)" by (rule Cons.IH)
  finally show ?case by simp
qed

lemma foldl_newerOf_max: "x \<in> set xs \<Longrightarrow> timestamp x \<le> timestamp (foldl newerOf b xs)"
proof (induction xs arbitrary: b)
  case Nil then show ?case by simp
next
  case (Cons y ys)
  show ?case
  proof (cases "x = y")
    case True
    have "timestamp y \<le> timestamp (newerOf b y)" by (simp add: newerOf_def)
    also have "\<dots> \<le> timestamp (foldl newerOf (newerOf b y) ys)" by (rule foldl_newerOf_ge)
    finally show ?thesis using True by simp
  next
    case False
    with Cons.prems have "x \<in> set ys" by simp
    from Cons.IH [OF this] show ?thesis by simp
  qed
qed

lemma mostRecentRun_None: "mostRecentRun rs = None \<longleftrightarrow> rs = []"
  by (simp add: mostRecentRun_def split: list.splits)

lemma mostRecentRun_Some:
  "mostRecentRun rs = Some m \<Longrightarrow> m \<in> set rs \<and> (\<forall>x\<in>set rs. timestamp x \<le> timestamp m)"
proof -
  assume a: "mostRecentRun rs = Some m"
  then obtain r rest where rs: "rs = r # rest" and m: "m = foldl newerOf r rest"
    by (auto simp: mostRecentRun_def split: list.splits)
  have "m \<in> set rs" unfolding rs m by (rule foldl_newerOf_mem)
  moreover have "\<forall>x\<in>set rs. timestamp x \<le> timestamp m"
    unfolding rs m using foldl_newerOf_ge [of r rest] foldl_newerOf_max [of _ rest r] by auto
  ultimately show ?thesis by simp
qed

lemma filter_runId_single:
  "distinct (map runId xs) \<Longrightarrow> p \<in> set xs \<Longrightarrow> filter (\<lambda>r. runId r = runId p) xs = [p]"
proof (induction xs)
  case Nil then show ?case by simp
next
  case (Cons x xs)
  show ?case
  proof (cases "x = p")
    case True
    with Cons.prems have "\<forall>y\<in>set xs. runId y \<noteq> runId p" by (force simp: image_iff)
    then have "filter (\<lambda>r. runId r = runId p) xs = []" by (simp add: filter_empty_conv)
    with True show ?thesis by simp
  next
    case False
    with Cons.prems have pin: "p \<in> set xs" by simp
    with Cons.prems have "runId x \<noteq> runId p" by (force simp: image_iff)
    moreover from Cons.prems pin have "filter (\<lambda>r. runId r = runId p) xs = [p]"
      using Cons.IH by simp
    ultimately show ?thesis by simp
  qed
qed

lemma getRuns_files: "files (snd (getRuns V rp)) = files rp"
  by (simp add: getRuns_def Let_def split: option.splits)

lemma getLatestPassedRun_files: "files (snd (getLatestPassedRun V rp)) = files rp"
  by (simp add: getLatestPassedRun_def Let_def getRuns_files split: prod.splits)
    (metis getRuns_files snd_conv)

lemma foldl_deleteRun_files:
  "files (foldl deleteRun rp ds) = filter (\<lambda>f. fst f \<notin> runId ` set ds) (files rp)"
proof (induction ds arbitrary: rp)
  case Nil show ?case by simp
next
  case (Cons d ds)
  have "files (deleteRun rp d) = filter (\<lambda>f. fst f \<noteq> runId d) (files rp)"
    by (simp add: deleteRun_def AList.delete_eq case_prod_unfold) (metis)
  then show ?case using Cons.IH [of "deleteRun rp d"] by (simp add: conj_commute)
qed

lemma applyRetentionPolicy_files:
  "files (snd (applyRetentionPolicy V rp)) =
     filter (\<lambda>f. fst f \<notin> runId ` set (fst (applyRetentionPolicy V rp))) (files rp)"
proof -
  obtain runs rp1 where g: "getRuns V rp = (runs, rp1)" by (cases "getRuns V rp")
  obtain l rp2 where h: "getLatestPassedRun V rp1 = (l, rp2)" by (cases "getLatestPassedRun V rp1")
  have "files rp1 = files rp" using getRuns_files [of V rp] g by simp
  moreover have "files rp2 = files rp1" using getLatestPassedRun_files [of V rp1] h by simp
  ultimately show ?thesis using g h
    by (simp add: applyRetentionPolicy_def Let_def foldl_deleteRun_files)
qed

lemma latest_in_runs:
  "fst (getLatestPassedRun V rp) = Some p \<Longrightarrow>
     p \<in> set (fst (getRuns V rp)) \<and> version p = V \<and> \<not> executedFromCache p
     \<and> status (state p) = passed"
proof -
  let ?P = "\<lambda>run. status (state run) = passed \<and> version run = V \<and> \<not> executedFromCache run"
  assume "fst (getLatestPassedRun V rp) = Some p"
  then have ne: "filter ?P (fst (getRuns V rp)) \<noteq> []"
    and l: "p = last (filter ?P (fst (getRuns V rp)))"
    by (auto simp: getLatestPassedRun_fst Let_def split: if_splits)
  from ne have "last (filter ?P (fst (getRuns V rp))) \<in> set (filter ?P (fst (getRuns V rp)))"
    by (rule last_in_set)
  with l show ?thesis by simp
qed


lemma getRuns_memo: "memo rp = Some rs \<Longrightarrow> getRuns V rp = (rs, rp)"
  by (simp add: getRuns_def)

lemma last_filter_split:
  "filter P xs \<noteq> [] \<Longrightarrow>
   \<exists>pre post. xs = pre @ last (filter P xs) # post \<and> P (last (filter P xs))
              \<and> (\<forall>x\<in>set post. \<not> P x)"
proof (induction xs)
  case Nil
  then show ?case by simp
next
  case (Cons x xs)
  show ?case
  proof (cases "filter P xs = []")
    case True
    with Cons.prems have px: "P x" by (auto split: if_splits)
    from True have "\<forall>y\<in>set xs. \<not> P y" by (simp add: filter_empty_conv)
    with px True have "x # xs = [] @ last (filter P (x # xs)) # xs \<and> P (last (filter P (x # xs)))
                  \<and> (\<forall>y\<in>set xs. \<not> P y)" by simp
    then show ?thesis by blast
  next
    case False
    from Cons.IH [OF False] obtain pre post where
      h: "xs = pre @ last (filter P xs) # post" "P (last (filter P xs))" "\<forall>y\<in>set post. \<not> P y"
      by blast
    from False have l: "last (filter P (x # xs)) = last (filter P xs)" by simp
    from h(1) have "x # xs = (x # pre) @ last (filter P xs) # post" by simp
    with h(2,3) l show ?thesis by metis
  qed
qed

lemma last_filter_unique:
  "xs = pre @ r # post \<Longrightarrow> P r \<Longrightarrow> \<forall>x\<in>set post. \<not> P x
   \<Longrightarrow> filter P xs \<noteq> [] \<and> last (filter P xs) = r"
  by (simp add: filter_empty_conv)

lemma latest_timestamp_free:
  "memo rp = Some runs \<Longrightarrow>
   fst (getLatestPassedRun V (rp\<lparr>memo := Some (map (\<lambda>r. r\<lparr>timestamp := f r\<rparr>) runs)\<rparr>))
     = map_option (\<lambda>r. r\<lparr>timestamp := f r\<rparr>) (fst (getLatestPassedRun V rp))"
  by (simp add: getLatestPassedRun_fst getRuns_memo Let_def filter_map o_def last_map)

lemma mkRun_simps [simp]:
  "runId (mkRun rid ts ver fc st rsn) = rid"
  "timestamp (mkRun rid ts ver fc st rsn) = ts"
  "version (mkRun rid ts ver fc st rsn) = ver"
  "executedFromCache (mkRun rid ts ver fc st rsn) = fc"
  "state (mkRun rid ts ver fc st rsn) = \<lparr>status = st, reason = Some rsn\<rparr>"
  "testCase (mkRun rid ts ver fc st rsn) = sampleTestCase"
  by (simp_all add: mkRun_def sampleRun_def create_def newTestRun_def)

lemma roundtrip_id: "fromCache V (testCase run) (toCacheEntry run) = run"
  by (simp add: fromCache_def toCacheEntry_def newTestRun_def versionOfField_def getSteps_def)

lemma roundtrip_mkRun:
  "fromCache V sampleTestCase (toCacheEntry (mkRun rid ts ver fc st rsn))
     = mkRun rid ts ver fc st rsn"
  using roundtrip_id [of V "mkRun rid ts ver fc st rsn"] by simp

text \<open>
  C5. \<^verbatim>\<open>getLatestPassedRun\<close> returns null exactly when no loaded run is passed, of
  the current schema version and not executed from cache; otherwise it returns the
  last loaded run, in enumeration order, that satisfies the three conditions. The
  timestamps play no part: stamping the loaded runs differently selects the same run.
\<close>

theorem latest_passed_run:
  "(fst (getLatestPassedRun V rp) = None \<longleftrightarrow>
      (\<forall>run \<in> set (fst (getRuns V rp)).
         \<not> (status (state run) = passed \<and> version run = V \<and> \<not> executedFromCache run)))
   \<and> (fst (getLatestPassedRun V rp) = Some r \<longleftrightarrow>
      (\<exists>pre post. fst (getRuns V rp) = pre @ r # post
         \<and> status (state r) = passed \<and> version r = V \<and> \<not> executedFromCache r
         \<and> (\<forall>run \<in> set post.
              \<not> (status (state run) = passed \<and> version run = V \<and> \<not> executedFromCache run))))
   \<and> (\<forall>runs f. memo rp = Some runs \<longrightarrow>
        fst (getLatestPassedRun V (rp\<lparr>memo := Some (map (\<lambda>x. x\<lparr>timestamp := f x\<rparr>) runs)\<rparr>))
          = map_option (\<lambda>x. x\<lparr>timestamp := f x\<rparr>) (fst (getLatestPassedRun V rp)))"
proof -
  let ?P = "\<lambda>run. status (state run) = passed \<and> version run = V \<and> \<not> executedFromCache run"
  let ?runs = "fst (getRuns V rp)"
  have g: "fst (getLatestPassedRun V rp) =
             (if filter ?P ?runs = [] then None else Some (last (filter ?P ?runs)))"
    by (simp add: getLatestPassedRun_fst Let_def)
  have a: "fst (getLatestPassedRun V rp) = None \<longleftrightarrow> (\<forall>run \<in> set ?runs. \<not> ?P run)"
    unfolding g by (simp add: filter_empty_conv)
  have b: "fst (getLatestPassedRun V rp) = Some r \<longleftrightarrow>
           (\<exists>pre post. ?runs = pre @ r # post \<and> ?P r \<and> (\<forall>run \<in> set post. \<not> ?P run))"
  proof
    assume "fst (getLatestPassedRun V rp) = Some r"
    then have ne: "filter ?P ?runs \<noteq> []" and l: "last (filter ?P ?runs) = r"
      unfolding g by (auto split: if_splits)
    from last_filter_split [OF ne] l
    show "\<exists>pre post. ?runs = pre @ r # post \<and> ?P r \<and> (\<forall>run \<in> set post. \<not> ?P run)"
      by simp
  next
    assume "\<exists>pre post. ?runs = pre @ r # post \<and> ?P r \<and> (\<forall>run \<in> set post. \<not> ?P run)"
    then obtain pre post where
      h: "?runs = pre @ r # post" "?P r" "\<forall>run \<in> set post. \<not> ?P run" by blast
    from last_filter_unique [of ?runs pre r post ?P, OF h]
    show "fst (getLatestPassedRun V rp) = Some r" unfolding g by simp
  qed
  from a b latest_timestamp_free [of rp _ V] show ?thesis by simp
qed

theorem latest_passed_run_witness:
  "fst (getRuns 2 (emptyRepo\<lparr>memo := Some fiveRuns\<rparr>)) = fiveRuns
   \<and> fst (getLatestPassedRun 2 (emptyRepo\<lparr>memo := Some fiveRuns\<rparr>))
       = Some (mkRun ''run5'' 1000 2 False passed ''Valid run - last'')
   \<and> fst (getLatestPassedRun 2 (emptyRepo\<lparr>memo := Some (take 3 fiveRuns)\<rparr>)) = None"
  using latest_passed_run [of 2 "emptyRepo\<lparr>memo := Some fiveRuns\<rparr>"
      "mkRun ''run5'' 1000 2 False passed ''Valid run - last''"]
    latest_passed_run [of 2 "emptyRepo\<lparr>memo := Some (take 3 fiveRuns)\<rparr>"]
  by (simp add: getLatestPassedRun_fst getRuns_memo fiveRuns_def Let_def)

section \<open>The cache store: retention\<close>

lemma mixed_runs: "fst (getRuns 2 (repoOf mixedRuns)) = mixedRuns"
  by (simp add: getRuns_def repoOf_def emptyRepo_def mixedRuns_def Let_def roundtrip_mkRun)

lemma mixed_deleted:
  "fst (applyRetentionPolicy 2 (repoOf mixedRuns))
     = [mkRun ''outdated'' 100 1 False passed ''old schema'',
        mkRun ''failed'' 200 2 False failed ''did not pass'']"
  by (simp add: applyRetentionPolicy_fst getLatestPassedRun_fst mixed_runs runsToDelete_def Let_def)
     (simp add: mixedRuns_def)

lemma mixed_scenario:
  "map runId (fst (applyRetentionPolicy 2 (repoOf mixedRuns))) = [''outdated'', ''failed'']
   \<and> map fst (files (snd (applyRetentionPolicy 2 (repoOf mixedRuns)))) = [''passed'', ''cached'']"
  by (simp add: applyRetentionPolicy_files mixed_deleted)
     (simp add: mixedRuns_def repoOf_def emptyRepo_def)

lemma failed_runs: "fst (getRuns 2 (repoOf failedRuns)) = failedRuns"
  by (simp add: getRuns_def repoOf_def emptyRepo_def failedRuns_def Let_def roundtrip_mkRun)

lemma failed_deleted:
  "fst (applyRetentionPolicy 2 (repoOf failedRuns)) = [mkRun ''older-run'' 1000 2 False failed ''f'']"
  by (simp add: applyRetentionPolicy_fst getLatestPassedRun_fst failed_runs runsToDelete_def Let_def)
     (simp add: failedRuns_def mostRecentRun_def newerOf_def)

lemma runsToDelete_ignores_cached:
  "runsToDelete V (filter (\<lambda>r. \<not> (version r = V \<and> executedFromCache r)) runs) l
     = runsToDelete V runs l"
proof -
  have a: "filter (\<lambda>run. version run \<noteq> V) (filter (\<lambda>r. \<not> (version r = V \<and> executedFromCache r)) runs)
             = filter (\<lambda>run. version run \<noteq> V) runs"
    by (simp add: filter_filter) (metis)
  have b: "filter (\<lambda>run. \<not> executedFromCache run)
             (filter (\<lambda>run. version run = V) (filter (\<lambda>r. \<not> (version r = V \<and> executedFromCache r)) runs))
             = filter (\<lambda>run. \<not> executedFromCache run) (filter (\<lambda>run. version run = V) runs)"
    by (simp add: filter_filter) (metis)
  show ?thesis by (simp only: runsToDelete_def Let_def a b)
qed

lemma old_replay_runs: "fst (getRuns 2 (repoOf oldReplayRuns)) = oldReplayRuns"
  by (simp add: getRuns_def repoOf_def emptyRepo_def oldReplayRuns_def Let_def roundtrip_mkRun)

lemma old_replay_deleted:
  "fst (applyRetentionPolicy 2 (repoOf oldReplayRuns)) = oldReplayRuns"
  by (simp add: applyRetentionPolicy_fst getLatestPassedRun_fst old_replay_runs runsToDelete_def
      Let_def)
     (simp add: oldReplayRuns_def mostRecentRun_def)

text \<open>
  C3 as stated fails where its first two parts meet: a run that was executed from
  cache and has an outdated schema version is deleted, by the first step of the
  policy.
\<close>

theorem retention_deletes_outdated_cached_run:
  "oldReplayRuns = [mkRun ''old-replay'' 100 1 True passed ''replayed under the old schema'']
   \<and> executedFromCache (mkRun ''old-replay'' 100 1 True passed ''replayed under the old schema'')
   \<and> version (mkRun ''old-replay'' 100 1 True passed ''replayed under the old schema'') \<noteq> 2
   \<and> fst (getRuns 2 (repoOf oldReplayRuns)) = oldReplayRuns
   \<and> fst (applyRetentionPolicy 2 (repoOf oldReplayRuns))
       = [mkRun ''old-replay'' 100 1 True passed ''replayed under the old schema'']
   \<and> files (repoOf oldReplayRuns) \<noteq> []
   \<and> files (snd (applyRetentionPolicy 2 (repoOf oldReplayRuns))) = []"
  by (simp add: applyRetentionPolicy_files old_replay_deleted old_replay_runs)
     (simp add: oldReplayRuns_def repoOf_def emptyRepo_def)

text \<open>
  C3, as amended. With \<open>runs\<close> the loaded runs and \<open>deleted\<close> the runs the policy
  deletes: every run of another schema version is deleted; a run that was executed
  from cache is deleted only in that case, so no such run of the current version is
  deleted, and these runs have no influence on what is deleted; if there is a latest
  passed run, then among the current-version runs not executed from cache exactly the
  runs with another run id are deleted (with distinct run ids, that run alone is
  kept); if there is none, the same holds for the most recently timestamped such run;
  nothing else is deleted, and exactly the files of the deleted runs leave the disk. In
  the mixed scenario the outdated run and the failed run are deleted, the passed run
  and the cache-executed run stay.
\<close>

theorem retention_policy:
  "(let runs = fst (getRuns V rp);
        deleted = fst (applyRetentionPolicy V rp);
        nonCache = filter (\<lambda>r. version r = V \<and> \<not> executedFromCache r) runs
    in (\<forall>r\<in>set runs. version r \<noteq> V \<longrightarrow> r \<in> set deleted)
     \<and> (\<forall>r\<in>set runs. version r = V \<and> executedFromCache r \<longrightarrow> r \<notin> set deleted)
     \<and> (\<forall>r\<in>set runs. executedFromCache r \<longrightarrow> (r \<in> set deleted \<longleftrightarrow> version r \<noteq> V))
     \<and> (\<forall>p. fst (getLatestPassedRun V rp) = Some p \<longrightarrow>
           p \<in> set nonCache \<and> status (state p) = passed
           \<and> (\<forall>r\<in>set nonCache. r \<in> set deleted \<longleftrightarrow> runId r \<noteq> runId p)
           \<and> (distinct (map runId runs) \<longrightarrow> filter (\<lambda>r. r \<notin> set deleted) nonCache = [p]))
     \<and> (fst (getLatestPassedRun V rp) = None \<longrightarrow>
           (nonCache = [] \<or> mostRecentRun nonCache \<noteq> None)
           \<and> (\<forall>m. mostRecentRun nonCache = Some m \<longrightarrow>
                 m \<in> set nonCache \<and> (\<forall>r\<in>set nonCache. timestamp r \<le> timestamp m)
                 \<and> (\<forall>r\<in>set nonCache. r \<in> set deleted \<longleftrightarrow> runId r \<noteq> runId m)
                 \<and> (distinct (map runId runs) \<longrightarrow>
                       filter (\<lambda>r. r \<notin> set deleted) nonCache = [m])))
     \<and> set deleted \<subseteq> set runs
     \<and> files (snd (applyRetentionPolicy V rp))
         = filter (\<lambda>f. fst f \<notin> runId ` set deleted) (files rp)
     \<and> deleted = runsToDelete V (filter (\<lambda>r. \<not> (version r = V \<and> executedFromCache r)) runs)
                    (fst (getLatestPassedRun V rp)))
   \<and> map runId (fst (applyRetentionPolicy 2 (repoOf mixedRuns))) = [''outdated'', ''failed'']
   \<and> map fst (files (snd (applyRetentionPolicy 2 (repoOf mixedRuns)))) = [''passed'', ''cached'']"
proof -
  let ?runs = "fst (getRuns V rp)"
  let ?del = "fst (applyRetentionPolicy V rp)"
  let ?nc = "filter (\<lambda>r. version r = V \<and> \<not> executedFromCache r) ?runs"
  have nc: "filter (\<lambda>run. \<not> executedFromCache run) (filter (\<lambda>run. version run = V) ?runs) = ?nc"
    by (simp add: conj_commute)
  have del: "?del = filter (\<lambda>run. version run \<noteq> V) ?runs @
       (case fst (getLatestPassedRun V rp) of
          Some p \<Rightarrow> filter (\<lambda>run. runId run \<noteq> runId p) ?nc
        | None \<Rightarrow> (case mostRecentRun ?nc of None \<Rightarrow> []
                    | Some m \<Rightarrow> filter (\<lambda>run. runId run \<noteq> runId m) ?nc))"
    by (simp add: applyRetentionPolicy_fst runsToDelete_def Let_def nc cong: option.case_cong)
  have c1: "\<forall>r\<in>set ?runs. version r \<noteq> V \<longrightarrow> r \<in> set ?del"
    unfolding del by simp
  have c2: "\<forall>r\<in>set ?runs. version r = V \<and> executedFromCache r \<longrightarrow> r \<notin> set ?del"
    unfolding del by (auto split: option.splits)
  have c2': "\<forall>r\<in>set ?runs. executedFromCache r \<longrightarrow> (r \<in> set ?del \<longleftrightarrow> version r \<noteq> V)"
    using c1 c2 by blast
  have c5: "set ?del \<subseteq> set ?runs"
    unfolding del by (auto split: option.splits)
  have dn: "distinct (map runId ?runs) \<Longrightarrow> distinct (map runId ?nc)"
    by (rule distinct_map_filter)
  have kept: "\<And>k. k \<in> set ?nc \<Longrightarrow> distinct (map runId ?runs) \<Longrightarrow>
       \<forall>r\<in>set ?nc. r \<in> set ?del \<longleftrightarrow> runId r \<noteq> runId k \<Longrightarrow>
       filter (\<lambda>r. r \<notin> set ?del) ?nc = [k]"
  proof -
    fix k assume k: "k \<in> set ?nc" and d: "distinct (map runId ?runs)"
      and e: "\<forall>r\<in>set ?nc. r \<in> set ?del \<longleftrightarrow> runId r \<noteq> runId k"
    from e have "filter (\<lambda>r. r \<notin> set ?del) ?nc = filter (\<lambda>r. runId r = runId k) ?nc"
      by (intro filter_cong) auto
    also have "\<dots> = [k]" by (rule filter_runId_single [OF dn [OF d] k])
    finally show "filter (\<lambda>r. r \<notin> set ?del) ?nc = [k]" .
  qed
  have c3: "\<forall>p. fst (getLatestPassedRun V rp) = Some p \<longrightarrow>
           p \<in> set ?nc \<and> status (state p) = passed
           \<and> (\<forall>r\<in>set ?nc. r \<in> set ?del \<longleftrightarrow> runId r \<noteq> runId p)
           \<and> (distinct (map runId ?runs) \<longrightarrow> filter (\<lambda>r. r \<notin> set ?del) ?nc = [p])"
  proof (intro allI impI)
    fix p assume lp: "fst (getLatestPassedRun V rp) = Some p"
    from latest_in_runs [OF lp] have pin: "p \<in> set ?nc" and ps: "status (state p) = passed"
      by simp_all
    have e: "\<forall>r\<in>set ?nc. r \<in> set ?del \<longleftrightarrow> runId r \<noteq> runId p"
      unfolding del lp by auto
    from pin ps e kept [OF pin _ e]
    show "p \<in> set ?nc \<and> status (state p) = passed
           \<and> (\<forall>r\<in>set ?nc. r \<in> set ?del \<longleftrightarrow> runId r \<noteq> runId p)
           \<and> (distinct (map runId ?runs) \<longrightarrow> filter (\<lambda>r. r \<notin> set ?del) ?nc = [p])"
      by blast
  qed
  have c4: "fst (getLatestPassedRun V rp) = None \<longrightarrow>
           (?nc = [] \<or> mostRecentRun ?nc \<noteq> None)
           \<and> (\<forall>m. mostRecentRun ?nc = Some m \<longrightarrow>
                 m \<in> set ?nc \<and> (\<forall>r\<in>set ?nc. timestamp r \<le> timestamp m)
                 \<and> (\<forall>r\<in>set ?nc. r \<in> set ?del \<longleftrightarrow> runId r \<noteq> runId m)
                 \<and> (distinct (map runId ?runs) \<longrightarrow> filter (\<lambda>r. r \<notin> set ?del) ?nc = [m]))"
  proof (intro impI conjI allI)
    show "?nc = [] \<or> mostRecentRun ?nc \<noteq> None" by (simp add: mostRecentRun_None)
  next
    fix m assume ln: "fst (getLatestPassedRun V rp) = None" and mr: "mostRecentRun ?nc = Some m"
    from mostRecentRun_Some [OF mr]
    show "m \<in> set ?nc" and "\<forall>r\<in>set ?nc. timestamp r \<le> timestamp m" by blast+
    then have min: "m \<in> set ?nc" by simp
    show e: "\<forall>r\<in>set ?nc. r \<in> set ?del \<longleftrightarrow> runId r \<noteq> runId m"
      unfolding del ln mr by auto
    assume d: "distinct (map runId ?runs)"
    from kept [OF min d e] show "filter (\<lambda>r. r \<notin> set ?del) ?nc = [m]" .
  qed
  have c6: "?del = runsToDelete V (filter (\<lambda>r. \<not> (version r = V \<and> executedFromCache r)) ?runs)
                    (fst (getLatestPassedRun V rp))"
    by (simp only: runsToDelete_ignores_cached applyRetentionPolicy_fst)
  show ?thesis unfolding Let_def
    by (intro conjI c1 c2 c2' c3 c4 c5 c6 applyRetentionPolicy_files
        conjunct1 [OF mixed_scenario] conjunct2 [OF mixed_scenario])
qed


theorem retention_policy_witness:
  "fst (getRuns 2 (repoOf failedRuns)) = failedRuns
   \<and> fst (getLatestPassedRun 2 (repoOf failedRuns)) = None
   \<and> distinct (map runId failedRuns)
   \<and> mostRecentRun (filter (\<lambda>r. version r = 2 \<and> \<not> executedFromCache r) failedRuns)
       = Some (mkRun ''regular-run'' 2000 2 False failed ''f'')
   \<and> fst (applyRetentionPolicy 2 (repoOf failedRuns))
       = [mkRun ''older-run'' 1000 2 False failed ''f'']
   \<and> map fst (files (snd (applyRetentionPolicy 2 (repoOf failedRuns))))
       = [''from-cache-run'', ''regular-run'']"
proof -
  have l: "fst (getLatestPassedRun 2 (repoOf failedRuns)) = None"
    by (simp add: getLatestPassedRun_fst failed_runs Let_def) (simp add: failedRuns_def)
  have d: "distinct (map runId failedRuns)"
    by (simp add: failedRuns_def)
  have m: "mostRecentRun (filter (\<lambda>r. version r = 2 \<and> \<not> executedFromCache r) failedRuns)
       = Some (mkRun ''regular-run'' 2000 2 False failed ''f'')"
    by (simp add: failedRuns_def mostRecentRun_def newerOf_def)
  from retention_policy [of 2 "repoOf failedRuns"]
  have f: "files (snd (applyRetentionPolicy 2 (repoOf failedRuns)))
         = filter (\<lambda>f. fst f \<notin> runId ` set (fst (applyRetentionPolicy 2 (repoOf failedRuns))))
             (files (repoOf failedRuns))"
    unfolding Let_def by blast
  have g: "map fst (files (snd (applyRetentionPolicy 2 (repoOf failedRuns))))
       = [''from-cache-run'', ''regular-run'']"
    unfolding f failed_deleted by (simp add: repoOf_def emptyRepo_def failedRuns_def)
  from failed_runs l d m failed_deleted g show ?thesis by simp
qed

section \<open>The cache store: saving\<close>

text \<open>
  C7. \<^verbatim>\<open>saveRun\<close> first attempts the lock. When the attempt fails, nothing but the
  failed attempt happens: the files are unchanged, there is no second attempt and
  nothing is queued. When it succeeds, one CacheEntry document is written under the run
  id of the run, every other document is unchanged, and the lock is released
  afterwards.
\<close>

theorem saveRun_lock:
  "(lockHeld rp \<longrightarrow>
       saveRun rp run = rp\<lparr>fsLog := fsLog rp @ [LockAttempt False]\<rparr>
       \<and> files (saveRun rp run) = files rp)
   \<and> (\<not> lockHeld rp \<longrightarrow>
       fsLog (saveRun rp run)
         = fsLog rp @ [LockAttempt True, WriteFile (runId run) (toCacheEntry run), LockRelease]
       \<and> map_of (files (saveRun rp run)) (runId run) = Some (toCacheEntry run)
       \<and> (\<forall>k. k \<noteq> runId run \<longrightarrow> map_of (files (saveRun rp run)) k = map_of (files rp) k)
       \<and> \<not> lockHeld (saveRun rp run))"
  by (simp add: saveRun_def AList.update_conv')

theorem saveRun_lock_witness:
  "lockHeld (emptyRepo\<lparr>lockHeld := True\<rparr>)
   \<and> files (saveRun (emptyRepo\<lparr>lockHeld := True\<rparr>) sampleRun) = []
   \<and> fsLog (saveRun (emptyRepo\<lparr>lockHeld := True\<rparr>) sampleRun) = [LockAttempt False]
   \<and> \<not> lockHeld emptyRepo
   \<and> files (saveRun emptyRepo sampleRun) = [(runId sampleRun, toCacheEntry sampleRun)]
   \<and> fsLog (saveRun emptyRepo sampleRun)
       = [LockAttempt True, WriteFile (runId sampleRun) (toCacheEntry sampleRun), LockRelease]"
  using saveRun_lock [of "emptyRepo\<lparr>lockHeld := True\<rparr>" sampleRun]
    saveRun_lock [of emptyRepo sampleRun]
  by (simp add: emptyRepo_def saveRun_def)

section \<open>Round trip through a CacheEntry\<close>

lemma foldl_addStep_steps: "steps (foldl (\<lambda>r st. addStep st r) r ss) = steps r @ ss"
  by (induction ss arbitrary: r) (simp_all add: addStep_def)

lemma foldl_addStep_state: "state (foldl (\<lambda>r st. addStep st r) r ss) = state r"
  by (induction ss arbitrary: r) (simp_all add: addStep_def)

lemma foldl_addStep_tokenUsage: "tokenUsage (foldl (\<lambda>r st. addStep st r) r ss) = tokenUsage r"
  by (induction ss arbitrary: r) (simp_all add: addStep_def)

lemma foldl_addStep_testCase: "testCase (foldl (\<lambda>r st. addStep st r) r ss) = testCase r"
  by (induction ss arbitrary: r) (simp_all add: addStep_def)

text \<open>
  C8. A run that was created, marked running, marked passed with a reason and a token
  usage, and to which steps were appended (before or after the verdict) comes back
  from \<^verbatim>\<open>fromCache\<close> of its serialisation with the same status, reason, token usage
  and steps in the same order; indeed it comes back equal in every field.
\<close>

theorem cache_roundtrip:
  "markRunning (create V d tc) = Inr r1 \<longrightarrow>
   markPassed rsn (Some tu) (foldl (\<lambda>r st. addStep st r) r1 ss1) = Inr r2 \<longrightarrow>
   (let r3 = foldl (\<lambda>r st. addStep st r) r2 ss2;
        loaded = fromCache V tc (toCacheEntry r3)
    in status (state loaded) = passed
     \<and> reason (state loaded) = Some rsn
     \<and> tokenUsage loaded = tu
     \<and> getSteps loaded = ss1 @ ss2
     \<and> status (state loaded) = status (state r3)
     \<and> reason (state loaded) = reason (state r3)
     \<and> tokenUsage loaded = tokenUsage r3
     \<and> getSteps loaded = getSteps r3
     \<and> loaded = r3)"
proof (intro impI)
  assume a: "markRunning (create V d tc) = Inr r1"
    and b: "markPassed rsn (Some tu) (foldl (\<lambda>r st. addStep st r) r1 ss1) = Inr r2"
  let ?r3 = "foldl (\<lambda>r st. addStep st r) r2 ss2"
  from a have r1: "r1 = (create V d tc)\<lparr>state := \<lparr>status = running, reason = None\<rparr>\<rparr>"
    by (simp add: markRunning_def split: if_splits)
  then have t1: "testCase r1 = tc" and s1: "steps r1 = []"
    by (simp_all add: create_def newTestRun_def)
  from b have r2: "r2 = (foldl (\<lambda>r st. addStep st r) r1 ss1)
                          \<lparr>state := \<lparr>status = passed, reason = Some rsn\<rparr>, tokenUsage := tu\<rparr>"
    by (simp add: markPassed_def setTokenUsage_def split: if_splits)
  have t3: "testCase ?r3 = tc"
    by (simp add: foldl_addStep_testCase r2 t1)
  have st3: "state ?r3 = \<lparr>status = passed, reason = Some rsn\<rparr>"
    by (simp add: foldl_addStep_state r2)
  have tu3: "tokenUsage ?r3 = tu"
    by (simp add: foldl_addStep_tokenUsage r2)
  have ss3: "steps ?r3 = ss1 @ ss2"
    by (simp add: foldl_addStep_steps r2 s1)
  have bk: "fromCache V tc (toCacheEntry ?r3) = ?r3"
    using roundtrip_id [of V ?r3] by (simp add: t3)
  show "let r3 = ?r3; loaded = fromCache V tc (toCacheEntry r3)
    in status (state loaded) = passed
     \<and> reason (state loaded) = Some rsn
     \<and> tokenUsage loaded = tu
     \<and> getSteps loaded = ss1 @ ss2
     \<and> status (state loaded) = status (state r3)
     \<and> reason (state loaded) = reason (state r3)
     \<and> tokenUsage loaded = tokenUsage r3
     \<and> getSteps loaded = getSteps r3
     \<and> loaded = r3"
    unfolding Let_def bk by (simp add: st3 tu3 ss3 getSteps_def)
qed

theorem cache_roundtrip_witness:
  "(\<exists>r1 r2. markRunning (create 2 sampleDate sampleTestCase) = Inr r1
      \<and> markPassed ''Test passed'' (Some sampleUsage)
           (foldl (\<lambda>r st. addStep st r) r1 [sampleStep ''Navigating'' NAVIGATE]) = Inr r2
      \<and> (let loaded = fromCache 2 sampleTestCase
                       (toCacheEntry (foldl (\<lambda>r st. addStep st r) r2 [sampleStep ''Typing'' TYPE']))
         in status (state loaded) = passed \<and> reason (state loaded) = Some ''Test passed''
          \<and> tokenUsage loaded = sampleUsage
          \<and> getSteps loaded = [sampleStep ''Navigating'' NAVIGATE, sampleStep ''Typing'' TYPE']))"
proof -
  let ?r1 = "(create 2 sampleDate sampleTestCase)\<lparr>state := \<lparr>status = running, reason = None\<rparr>\<rparr>"
  let ?r2 = "(foldl (\<lambda>r st. addStep st r) ?r1 [sampleStep ''Navigating'' NAVIGATE])
               \<lparr>state := \<lparr>status = passed, reason = Some ''Test passed''\<rparr>,
                tokenUsage := sampleUsage\<rparr>"
  let ?loaded = "fromCache 2 sampleTestCase
                 (toCacheEntry (foldl (\<lambda>r st. addStep st r) ?r2 [sampleStep ''Typing'' TYPE']))"
  have a: "markRunning (create 2 sampleDate sampleTestCase) = Inr ?r1"
    by (simp add: markRunning_def create_def newTestRun_def)
  have b: "markPassed ''Test passed'' (Some sampleUsage)
             (foldl (\<lambda>r st. addStep st r) ?r1 [sampleStep ''Navigating'' NAVIGATE]) = Inr ?r2"
    by (simp add: markPassed_def setTokenUsage_def addStep_def)
  from cache_roundtrip [of 2 sampleDate sampleTestCase ?r1 "''Test passed''" sampleUsage
      "[sampleStep ''Navigating'' NAVIGATE]" ?r2 "[sampleStep ''Typing'' TYPE']"] a b
  have c: "status (state ?loaded) = passed \<and> reason (state ?loaded) = Some ''Test passed''
          \<and> tokenUsage ?loaded = sampleUsage
          \<and> getSteps ?loaded = [sampleStep ''Navigating'' NAVIGATE] @ [sampleStep ''Typing'' TYPE']"
    unfolding Let_def by blast
  then have "let loaded = ?loaded
         in status (state loaded) = passed \<and> reason (state loaded) = Some ''Test passed''
          \<and> tokenUsage loaded = sampleUsage
          \<and> getSteps loaded = [sampleStep ''Navigating'' NAVIGATE, sampleStep ''Typing'' TYPE']"
    unfolding Let_def by simp
  with a b show ?thesis by blast
qed

section \<open>Cached replay\<close>


lemma replaySteps_append:
  "replaySteps env (xs @ ys) w =
     (case replaySteps env xs w of
        (Some e, w') \<Rightarrow> (Some e, w')
      | (None, w') \<Rightarrow> replaySteps env ys w')"
  by (induction xs arbitrary: w) (auto split: prod.splits option.splits)

lemma checkStep_events:
  "checkStep env step w = (r, w') \<Longrightarrow>
     browser w' = browser w \<and> repo w' = repo w
     \<and> (\<exists>evs. events w' = events w @ evs \<and> (\<forall>ev\<in>set evs. replayEvent ev))"
  by (auto simp: checkStep_def Let_def split: option.splits if_splits sum.splits prod.splits)

lemma executeStep_events:
  "executeStep env step w = (r, w') \<Longrightarrow>
     repo w' = repo w
     \<and> (\<exists>evs. events w' = events w @ evs \<and> (\<forall>ev\<in>set evs. replayEvent ev))"
  by (auto simp: executeStep_def execute_def split: option.splits sum.splits prod.splits)

lemma replaySteps_events:
  "replaySteps env ss w = (r, w') \<Longrightarrow>
     repo w' = repo w
     \<and> (\<exists>evs. events w' = events w @ evs \<and> (\<forall>ev\<in>set evs. replayEvent ev))"
proof (induction ss arbitrary: w r w')
  case Nil
  then show ?case by simp
next
  case (Cons step rest)
  obtain r1 w1 where c: "checkStep env step (w\<lparr>events := events w @ [EvDelay 1000]\<rparr>) = (r1, w1)"
    by (cases "checkStep env step (w\<lparr>events := events w @ [EvDelay 1000]\<rparr>)")
  from checkStep_events [OF c] obtain evs1 where
    e1: "repo w1 = repo w" "events w1 = events w @ [EvDelay 1000] @ evs1" "\<forall>ev\<in>set evs1. replayEvent ev"
    by auto
  show ?case
  proof (cases r1)
    case (Some e)
    with Cons.prems c have "w' = w1" by simp
    with e1 show ?thesis by auto
  next
    case None
    obtain r2 w2 where x: "executeStep env step w1 = (r2, w2)"
      by (cases "executeStep env step w1")
    from executeStep_events [OF x] obtain evs2 where
      e2: "repo w2 = repo w1" "events w2 = events w1 @ evs2" "\<forall>ev\<in>set evs2. replayEvent ev"
      by auto
    show ?thesis
    proof (cases r2)
      case (Some e)
      with Cons.prems c None x have "w' = w2" by simp
      with e1 e2 show ?thesis by auto
    next
      case n2: None
      with Cons.prems c None x have "replaySteps env rest w2 = (r, w')" by simp
      from Cons.IH [OF this] obtain evs3 where
        e3: "repo w' = repo w2" "events w' = events w2 @ evs3" "\<forall>ev\<in>set evs3. replayEvent ev"
        by auto
      from e1 e2 e3 have "events w' = events w @ ([EvDelay 1000] @ evs1 @ evs2 @ evs3)
          \<and> (\<forall>ev\<in>set ([EvDelay 1000] @ evs1 @ evs2 @ evs3). replayEvent ev)"
        by auto
      with e1 e2 e3 show ?thesis by metis
    qed
  qed
qed


lemma replaySteps_snoc_mismatch:
  assumes pre: "replaySteps env pre w1 = (None, wp)"
    and a: "step_action step = Some a" "action (input a) = MOUSE_MOVE"
           "coordinate (input a) = Some (x, y)"
    and ex: "extras step = Some ex"
    and cs: "componentStrByCoords env (browser wp) x y = Inr str"
    and ne: "componentStr ex \<noteq> Some str"
  shows "replaySteps env (pre @ step # post) w1 =
           (Some (ErrorObj (CacheError invalid) ''UI element mismatch''),
            wp\<lparr>events := events wp @ [EvDelay 1000, EvComponentStr x y]\<rparr>)"
proof -
  have c: "checkStep env step (wp\<lparr>events := events wp @ [EvDelay 1000]\<rparr>) =
             (Some (ErrorObj (CacheError invalid) ''UI element mismatch''),
              wp\<lparr>events := events wp @ [EvDelay 1000, EvComponentStr x y]\<rparr>)"
    using a ex cs ne by (auto simp: checkStep_def Let_def)
  show ?thesis by (simp add: replaySteps_append pre c)
qed

lemma replaySteps_snoc_match:
  assumes pre: "replaySteps env pre w1 = (None, wp)"
    and a: "step_action step = Some a" "action (input a) = MOUSE_MOVE"
           "coordinate (input a) = Some (x, y)"
    and ex: "extras step = Some ex"
    and cs: "componentStrByCoords env (browser wp) x y = Inr str"
    and eq: "componentStr ex = Some str"
  shows "replaySteps env (pre @ [step]) w1 =
           executeStep env step (wp\<lparr>events := events wp @ [EvDelay 1000, EvComponentStr x y]\<rparr>)"
proof -
  have c: "checkStep env step (wp\<lparr>events := events wp @ [EvDelay 1000]\<rparr>) =
             (None, wp\<lparr>events := events wp @ [EvDelay 1000, EvComponentStr x y]\<rparr>)"
    using a ex cs eq by (auto simp: checkStep_def Let_def)
  show ?thesis by (simp add: replaySteps_append pre c split: prod.splits option.splits)
qed

text \<open>
  The comparison for a step that carries an \<^verbatim>\<open>extras\<close> object. Let the recorded
  sequence, screenshots dropped, be \<open>pre @ step # post\<close>, let the steps of \<open>pre\<close>
  replay without error, and let \<open>step\<close> be a pointer move with a recorded coordinate
  and an \<^verbatim>\<open>extras\<close> object. The component string of the element now at the
  coordinate is computed and compared with the recorded one. If they differ, the
  replay ends with the "invalid" cache error "UI element mismatch": after the events
  of \<open>pre\<close> there are only the delay and the look-up of the component string, so
  neither \<open>step\<close> nor any step of \<open>post\<close> is executed, and the run is left as it was.
  If they are equal, the step goes on to its execution.
\<close>

lemma replay_fingerprint_mismatch:
  assumes latest: "getLatestPassedRun V (repo w) = (Some latest, rp')"
    and split: "filter notScreenshot (steps latest) = pre @ step # post"
    and pre: "replaySteps env pre (w\<lparr>events := events w @ [EvReplayAttempt], repo := rp'\<rparr>)
                = (None, wp)"
    and a: "step_action step = Some a" "action (input a) = MOUSE_MOVE"
           "coordinate (input a) = Some (x, y)"
    and ex: "extras step = Some ex"
    and cs: "componentStrByCoords env (browser wp) x y = Inr str"
  shows "(componentStr ex \<noteq> Some str \<longrightarrow>
            runCachedTest V env w testRun =
              (Some (ErrorObj (CacheError invalid) ''UI element mismatch''),
               wp\<lparr>events := events wp @ [EvDelay 1000, EvComponentStr x y]\<rparr>, testRun))
       \<and> (componentStr ex = Some str \<longrightarrow>
            replaySteps env (pre @ [step])
                (w\<lparr>events := events w @ [EvReplayAttempt], repo := rp'\<rparr>) =
              executeStep env step
                (wp\<lparr>events := events wp @ [EvDelay 1000, EvComponentStr x y]\<rparr>))
       \<and> (\<exists>evs. events wp = events w @ EvReplayAttempt # evs \<and> (\<forall>ev\<in>set evs. replayEvent ev))"
proof (intro conjI impI)
  assume ne: "componentStr ex \<noteq> Some str"
  from replaySteps_snoc_mismatch [OF pre a ex cs ne, of post]
  show "runCachedTest V env w testRun =
              (Some (ErrorObj (CacheError invalid) ''UI element mismatch''),
               wp\<lparr>events := events wp @ [EvDelay 1000, EvComponentStr x y]\<rparr>, testRun)"
    by (simp add: runCachedTest_def latest split Let_def)
next
  assume eq: "componentStr ex = Some str"
  from replaySteps_snoc_match [OF pre a ex cs eq]
  show "replaySteps env (pre @ [step])
                (w\<lparr>events := events w @ [EvReplayAttempt], repo := rp'\<rparr>) =
              executeStep env step
                (wp\<lparr>events := events wp @ [EvDelay 1000, EvComponentStr x y]\<rparr>)" .
next
  from replaySteps_events [OF pre]
  show "\<exists>evs. events wp = events w @ EvReplayAttempt # evs \<and> (\<forall>ev\<in>set evs. replayEvent ev)"
    by auto
qed


lemma invoke_events:
  "invoke ev cb w = (r, w') \<Longrightarrow> events w' = events w @ [ev] \<and> repo w' = repo w"
  by (auto simp: invoke_def split: prod.splits)

lemma invokeOpt_events:
  "invokeOpt ev cbo w = (r, w') \<Longrightarrow>
     events w' = events w @ (if cbo = None then [] else [ev]) \<and> repo w' = repo w"
  by (auto simp: invokeOpt_def dest: invoke_events split: option.splits)

lemma execute_events:
  "execute env inp w = (r, w') \<Longrightarrow> events w' = events w @ [EvExecute inp] \<and> repo w' = repo w"
  by (auto simp: execute_def split: prod.splits)

lemma markPassedFromCache_Inr:
  "markPassedFromCache rsn r = Inr r' \<Longrightarrow>
     state r' = \<lparr>status = passed, reason = Some rsn\<rparr> \<and> executedFromCache r'
     \<and> testCase r' = testCase r \<and> runId r' = runId r"
  by (auto simp: markPassedFromCache_def markPassed_def setTokenUsage_def
      split: sum.splits if_splits)

lemma runCachedTest_error_run:
  "runCachedTest V env w r = (Some e, w2, r2) \<Longrightarrow> r2 = r"
  by (auto simp: runCachedTest_def Let_def split: prod.splits option.splits if_splits sum.splits)

lemma runCachedTest_success_run:
  "runCachedTest V env w r = (None, w2, r2) \<Longrightarrow>
     state r2 = \<lparr>status = passed, reason = Some ''All actions successfully replayed from cache''\<rparr>
     \<and> executedFromCache r2 \<and> testCase r2 = testCase r \<and> runId r2 = runId r
     \<and> status (state r) = running"
  by (auto simp: runCachedTest_def Let_def markPassedFromCache_def markPassed_def setTokenUsage_def
      split: prod.splits option.splits if_splits sum.splits)

lemma runCachedTest_events:
  assumes "runCachedTest V env w r = (x, w2, r2)"
  shows "\<exists>evs. events w2 = events w @ EvReplayAttempt # evs \<and> (\<forall>ev\<in>set evs. replayEvent ev)"
proof -
  obtain l rp' where g: "getLatestPassedRun V (repo w) = (l, rp')"
    by (cases "getLatestPassedRun V (repo w)")
  let ?w1 = "w\<lparr>events := events w @ [EvReplayAttempt], repo := rp'\<rparr>"
  show ?thesis
  proof (cases l)
    case None
    with assms g have "w2 = ?w1" by (simp add: runCachedTest_def)
    then show ?thesis by simp
  next
    case (Some latest)
    show ?thesis
    proof (cases "filter notScreenshot (steps latest) = []")
      case True
      with assms g Some have "w2 = ?w1" by (simp add: runCachedTest_def)
      then show ?thesis by simp
    next
      case False
      obtain r1 wr where rs: "replaySteps env (filter notScreenshot (steps latest)) ?w1 = (r1, wr)"
        by (cases "replaySteps env (filter notScreenshot (steps latest)) ?w1")
      with assms g Some False have "w2 = wr"
        by (auto simp: runCachedTest_def Let_def split: option.splits sum.splits)
      with replaySteps_events [OF rs] show ?thesis by auto
    qed
  qed
qed

lemma executeDirect_events:
  "executeDirect w r = (x, w', r') \<Longrightarrow>
     \<exists>evs. events w' = events w @ evs \<and> (\<forall>ev\<in>set evs. liveEvent ev)"
  by (auto simp: executeDirect_def Let_def dest!: invokeOpt_events
      split: prod.splits option.splits sum.splits if_splits)

lemma executeLive_events:
  assumes "executeLive env st w r = (x, w', r')"
  shows "\<exists>evs. events w' = events w @ evs \<and> (\<forall>ev\<in>set evs. liveEvent ev)"
proof -
  obtain rb wb where b: "invokeOpt EvBeforeFn (beforeFn (testCase r)) w = (rb, wb)"
    by (cases "invokeOpt EvBeforeFn (beforeFn (testCase r)) w")
  from invokeOpt_events [OF b] have eb: "\<exists>evs. events wb = events w @ evs \<and> (\<forall>ev\<in>set evs. liveEvent ev)"
    by auto
  show ?thesis
  proof (cases rb)
    case (Some e)
    with assms b have "w' = wb" by (simp add: executeLive_def)
    with eb show ?thesis by simp
  next
    case None
    obtain oc b2 ns where ra: "runAction env (browser wb) (buildPrompt (testCase r) st) = (oc, b2, ns)"
      by (cases "runAction env (browser wb) (buildPrompt (testCase r) st)")
    let ?w2 = "wb\<lparr>browser := b2, events := events wb @ [EvRunAction (buildPrompt (testCase r) st)]\<rparr>"
    from eb have e2: "\<exists>evs. events ?w2 = events w @ evs \<and> (\<forall>ev\<in>set evs. liveEvent ev)"
      by auto
    show ?thesis
    proof (cases oc)
      case (Inl e)
      with assms b None ra have "w' = ?w2" by (simp add: executeLive_def Let_def)
      with e2 show ?thesis by simp
    next
      case (Inr resp)
      obtain rf wf where f: "invokeOpt EvAfterFn (afterFn (testCase r)) ?w2 = (rf, wf)"
        by (cases "invokeOpt EvAfterFn (afterFn (testCase r)) ?w2")
      from e2 obtain evs2 where
        v2: "events ?w2 = events w @ evs2" "\<forall>ev\<in>set evs2. liveEvent ev" by blast
      let ?tail = "if afterFn (testCase r) = None then [] else [EvAfterFn]"
      from invokeOpt_events [OF f] v2(1)
      have "events wf = events w @ (evs2 @ ?tail)" by simp
      moreover from v2(2) have "\<forall>ev\<in>set (evs2 @ ?tail). liveEvent ev" by simp
      ultimately have ef: "\<exists>evs. events wf = events w @ evs \<and> (\<forall>ev\<in>set evs. liveEvent ev)"
        by blast
      from assms b None ra Inr f have "w' = wf"
        by (auto simp: executeLive_def Let_def split: option.splits AIStatus.splits sum.splits)
      with ef show ?thesis by simp
    qed
  qed
qed

lemma executeTest_skip:
  "\<not> directExecution (testCase r) \<Longrightarrow>
   executeTest V env cfg True w r =
     (case execute env screenshotInput w of
        (Inl e, w1) \<Rightarrow> (Some e, w1, r)
      | (Inr st, w1) \<Rightarrow> executeLive env st w1 r)"
  by (simp add: executeTest.simps [of V env cfg True w r] split: prod.splits sum.splits)

lemma executeTest_skip_events:
  assumes "executeTest V env cfg True w r = (x, w', r')"
  shows "\<exists>evs. events w' = events w @ evs \<and> (\<forall>ev\<in>set evs. liveEvent ev)"
proof (cases "directExecution (testCase r)")
  case True
  with assms have "executeDirect w r = (x, w', r')"
    by (simp add: executeTest.simps [of V env cfg True w r])
  then show ?thesis by (rule executeDirect_events)
next
  case False
  obtain rs w1 where s: "execute env screenshotInput w = (rs, w1)"
    by (cases "execute env screenshotInput w")
  from execute_events [OF s] have e1: "events w1 = events w @ [EvExecute screenshotInput]" by simp
  show ?thesis
  proof (cases rs)
    case (Inl e)
    with assms False s have "w' = w1" by (simp add: executeTest_skip)
    with e1 show ?thesis by simp
  next
    case (Inr st)
    with assms False s have "executeLive env st w1 r = (x, w', r')" by (simp add: executeTest_skip)
    from executeLive_events [OF this] e1 show ?thesis by auto
  qed
qed


lemma recordedRun_simps [simp]:
  "testCase (recordedRun ss) = sampleTestCase"
  "steps (recordedRun ss) = ss"
  "state (recordedRun ss) = \<lparr>status = passed, reason = Some ''ok''\<rparr>"
  "version (recordedRun ss) = 2"
  "executedFromCache (recordedRun ss) = False"
  "runId (recordedRun ss) = ''recorded''"
  by (simp_all add: recordedRun_def)

lemma getRuns_recorded:
  "getRuns 2 (repoOf [recordedRun ss]) =
     ([recordedRun ss], (repoOf [recordedRun ss])\<lparr>memo := Some [recordedRun ss]\<rparr>)"
  using roundtrip_id [of 2 "recordedRun ss"]
  by (simp add: getRuns_def repoOf_def emptyRepo_def Let_def)

lemma latest_recorded:
  "getLatestPassedRun 2 (repoOf [recordedRun ss]) =
     (Some (recordedRun ss), (repoOf [recordedRun ss])\<lparr>memo := Some [recordedRun ss]\<rparr>)"
  by (simp add: getLatestPassedRun_def getRuns_recorded)

lemma replay_fingerprint_mismatch_witness:
  "fst (runCachedTest 2 sampleEnv (sampleWorld staleRepo) (runningRun sampleTestCase))
     = Some (ErrorObj (CacheError invalid) ''UI element mismatch'')
   \<and> events (fst (snd (runCachedTest 2 sampleEnv (sampleWorld staleRepo)
                          (runningRun sampleTestCase))))
     = [EvReplayAttempt, EvDelay 1000,
        EvExecute \<lparr>action = TYPE', coordinate = None, coordinates = None, text_field = None,
                   url = None, duration = None\<rparr>,
        EvDelay 1000, EvComponentStr 10 20]
   \<and> snd (snd (runCachedTest 2 sampleEnv (sampleWorld staleRepo) (runningRun sampleTestCase)))
     = runningRun sampleTestCase"
proof -
  let ?rp' = "staleRepo\<lparr>memo := Some [recordedRun staleSteps]\<rparr>"
  let ?typeInput = "\<lparr>action = TYPE', coordinate = None, coordinates = None, text_field = None,
                     url = None, duration = None\<rparr>"
  let ?wp = "\<lparr>browser = Suc 0,
              events = [EvReplayAttempt, EvDelay 1000, EvExecute ?typeInput],
              repo = ?rp'\<rparr>"
  let ?a = "\<lparr>action_type = ''tool_use'', action_name = ''computer'',
              input = \<lparr>action = MOUSE_MOVE, coordinate = Some (10, 20),
                       coordinates = None, text_field = None, url = None,
                       duration = None\<rparr>\<rparr>"
  have h1: "getLatestPassedRun 2 (repo (sampleWorld staleRepo)) = (Some (recordedRun staleSteps), ?rp')"
    by (simp add: sampleWorld_def staleRepo_def latest_recorded)
  have h2: "filter notScreenshot (steps (recordedRun staleSteps))
              = [sampleStep ''Typing'' TYPE'] @ moveStep ''<a>Old</a>''
                  # [sampleStep ''Clicking'' LEFT_CLICK]"
    by (simp add: staleSteps_def notScreenshot_def sampleStep_def moveStep_def)
  have h3: "replaySteps sampleEnv [sampleStep ''Typing'' TYPE']
              ((sampleWorld staleRepo)\<lparr>events := events (sampleWorld staleRepo) @ [EvReplayAttempt],
                                        repo := ?rp'\<rparr>) = (None, ?wp)"
    by (simp add: sampleWorld_def checkStep_def executeStep_def execute_def sampleStep_def
        sampleEnv_def)
  have h4: "step_action (moveStep ''<a>Old</a>'') = Some ?a" by (simp add: moveStep_def)
  have h5: "action (input ?a) = MOUSE_MOVE" by simp
  have h6: "coordinate (input ?a) = Some (10, 20)" by simp
  have h7: "extras (moveStep ''<a>Old</a>'') = Some \<lparr>componentStr = Some ''<a>Old</a>''\<rparr>"
    by (simp add: moveStep_def)
  have h8: "componentStrByCoords sampleEnv (browser ?wp) 10 20 = Inr ''<button>Go</button>''"
    by (simp add: sampleEnv_def)
  have h9: "componentStr \<lparr>componentStr = Some ''<a>Old</a>''\<rparr> \<noteq> Some ''<button>Go</button>''"
    by simp
  from replay_fingerprint_mismatch [OF h1 h2 h3 h4 h5 h6 h7 h8,
      of "runningRun sampleTestCase"] h9
  have "runCachedTest 2 sampleEnv (sampleWorld staleRepo) (runningRun sampleTestCase) =
          (Some (ErrorObj (CacheError invalid) ''UI element mismatch''),
           ?wp\<lparr>events := events ?wp @ [EvDelay 1000, EvComponentStr 10 20]\<rparr>,
           runningRun sampleTestCase)"
    by blast
  then show ?thesis by simp
qed


section \<open>Falling back from a failed replay\<close>


lemma executeTest_cached:
  "\<not> directExecution (testCase r) \<Longrightarrow> caching_enabled cfg \<Longrightarrow>
   execute env screenshotInput w = (Inr st, w1) \<Longrightarrow>
   executeTest V env cfg False w r =
     (case runCachedTest V env w1 r of
        (None, w2, run2) \<Rightarrow> afterCached w2 run2
      | (Some e, w2, run2) \<Rightarrow>
          (if \<not> instanceofCacheError e then (Some e, w2, run2)
           else
             (case pageGoto env (browser w2) (window_url st) of
                (Some e', b3) \<Rightarrow>
                  (Some e', w2\<lparr>browser := b3, events := events w2 @ [EvGoto (window_url st)]\<rparr>,
                   run2)
              | (None, b3) \<Rightarrow>
                  executeTest V env cfg True
                    (w2\<lparr>browser := b3, events := events w2 @ [EvGoto (window_url st)]\<rparr>)
                    run2)))"
  by (simp add: executeTest.simps [of V env cfg False w r])

lemma instanceofCacheError_iff:
  "instanceofCacheError e \<longleftrightarrow> (\<exists>k m. e = ErrorObj (CacheError k) m)"
  by (cases e rule: instanceofCacheError.cases) simp_all

text \<open>
  C4. Let the test not be a direct one, caching be enabled, the first screenshot
  succeed, and the replay throw \<open>e\<close>. The run is as it was before the replay. If \<open>e\<close>
  is not a CacheError it leaves \<^verbatim>\<open>executeTest\<close> as it is. If it is one (of either
  kind), the page is sent to the URL of the first screenshot; when that navigation
  returns, the result is that of \<^verbatim>\<open>executeTest\<close> on the same run with
  \<^verbatim>\<open>skipCache\<close> set, which is the live path, and the events of the whole call
  are: the screenshot, one replay attempt with its step events, the navigation, then
  events of the live path only, so no second replay attempt. (When the navigation
  itself throws, that error leaves \<^verbatim>\<open>executeTest\<close>.)
\<close>

theorem cache_error_fallback:
  assumes nd: "\<not> directExecution (testCase testRun)"
    and ce: "caching_enabled cfg"
    and shot: "execute env screenshotInput w = (Inr initialState, w1)"
    and rc: "runCachedTest V env w1 testRun = (Some e, w2, run2)"
  shows "run2 = testRun
     \<and> (instanceofCacheError e \<longleftrightarrow> (\<exists>k m. e = ErrorObj (CacheError k) m))
     \<and> (\<not> instanceofCacheError e \<longrightarrow>
          executeTest V env cfg False w testRun = (Some e, w2, testRun))
     \<and> (instanceofCacheError e \<longrightarrow>
          (\<forall>e' b3. pageGoto env (browser w2) (window_url initialState) = (Some e', b3) \<longrightarrow>
             executeTest V env cfg False w testRun =
               (Some e',
                w2\<lparr>browser := b3, events := events w2 @ [EvGoto (window_url initialState)]\<rparr>,
                testRun))
        \<and> (\<forall>b3. pageGoto env (browser w2) (window_url initialState) = (None, b3) \<longrightarrow>
             (let w3 = w2\<lparr>browser := b3,
                           events := events w2 @ [EvGoto (window_url initialState)]\<rparr>
              in executeTest V env cfg False w testRun = executeTest V env cfg True w3 testRun
               \<and> executeTest V env cfg True w3 testRun =
                   (case execute env screenshotInput w3 of
                      (Inl e', w4) \<Rightarrow> (Some e', w4, testRun)
                    | (Inr st, w4) \<Rightarrow> executeLive env st w4 testRun)
               \<and> (\<exists>evs1 evs2.
                     events (fst (snd (executeTest V env cfg False w testRun)))
                       = events w @ EvExecute screenshotInput # EvReplayAttempt # evs1
                           @ EvGoto (window_url initialState) # evs2
                     \<and> (\<forall>ev\<in>set evs1. replayEvent ev)
                     \<and> (\<forall>ev\<in>set evs2. liveEvent ev)))))"
proof -
  from runCachedTest_error_run [OF rc] have r2: "run2 = testRun" .
  note ex = executeTest_cached [OF nd ce shot, of V]
  have a: "\<not> instanceofCacheError e \<longrightarrow>
          executeTest V env cfg False w testRun = (Some e, w2, testRun)"
    by (simp add: ex rc r2)
  have b: "instanceofCacheError e \<longrightarrow>
          (\<forall>e' b3. pageGoto env (browser w2) (window_url initialState) = (Some e', b3) \<longrightarrow>
             executeTest V env cfg False w testRun =
               (Some e',
                w2\<lparr>browser := b3, events := events w2 @ [EvGoto (window_url initialState)]\<rparr>,
                testRun))"
    by (simp add: ex rc r2)
  have c: "instanceofCacheError e \<longrightarrow>
         (\<forall>b3. pageGoto env (browser w2) (window_url initialState) = (None, b3) \<longrightarrow>
             (let w3 = w2\<lparr>browser := b3,
                           events := events w2 @ [EvGoto (window_url initialState)]\<rparr>
              in executeTest V env cfg False w testRun = executeTest V env cfg True w3 testRun
               \<and> executeTest V env cfg True w3 testRun =
                   (case execute env screenshotInput w3 of
                      (Inl e', w4) \<Rightarrow> (Some e', w4, testRun)
                    | (Inr st, w4) \<Rightarrow> executeLive env st w4 testRun)
               \<and> (\<exists>evs1 evs2.
                     events (fst (snd (executeTest V env cfg False w testRun)))
                       = events w @ EvExecute screenshotInput # EvReplayAttempt # evs1
                           @ EvGoto (window_url initialState) # evs2
                     \<and> (\<forall>ev\<in>set evs1. replayEvent ev)
                     \<and> (\<forall>ev\<in>set evs2. liveEvent ev))))"
  proof (intro impI allI)
    fix b3
    assume ice: "instanceofCacheError e"
      and g: "pageGoto env (browser w2) (window_url initialState) = (None, b3)"
    let ?w3 = "w2\<lparr>browser := b3, events := events w2 @ [EvGoto (window_url initialState)]\<rparr>"
    have e1: "executeTest V env cfg False w testRun = executeTest V env cfg True ?w3 testRun"
      by (simp add: ex rc r2 ice g)
    have e2: "executeTest V env cfg True ?w3 testRun =
                   (case execute env screenshotInput ?w3 of
                      (Inl e', w4) \<Rightarrow> (Some e', w4, testRun)
                    | (Inr st, w4) \<Rightarrow> executeLive env st w4 testRun)"
      by (rule executeTest_skip [OF nd])
    obtain x wf rf where fin: "executeTest V env cfg True ?w3 testRun = (x, wf, rf)"
      by (cases "executeTest V env cfg True ?w3 testRun")
    from executeTest_skip_events [OF fin] obtain evs2 where
      v2: "events wf = events ?w3 @ evs2" "\<forall>ev\<in>set evs2. liveEvent ev" by blast
    from runCachedTest_events [OF rc] obtain evs1 where
      v1: "events w2 = events w1 @ EvReplayAttempt # evs1" "\<forall>ev\<in>set evs1. replayEvent ev" by blast
    from execute_events [OF shot] have v0: "events w1 = events w @ [EvExecute screenshotInput]"
      by simp
    have "events (fst (snd (executeTest V env cfg False w testRun))) = events wf"
      by (simp only: e1 fin fst_conv snd_conv)
    also have "\<dots> = events ?w3 @ evs2" by (rule v2(1))
    also have "\<dots> = events w @ EvExecute screenshotInput # EvReplayAttempt # evs1
                @ EvGoto (window_url initialState) # evs2"
      by (simp add: v1 v0)
    finally have "events (fst (snd (executeTest V env cfg False w testRun)))
            = events w @ EvExecute screenshotInput # EvReplayAttempt # evs1
                @ EvGoto (window_url initialState) # evs2" .
    with v1(2) v2(2) have e3: "\<exists>evs1 evs2.
                     events (fst (snd (executeTest V env cfg False w testRun)))
                       = events w @ EvExecute screenshotInput # EvReplayAttempt # evs1
                           @ EvGoto (window_url initialState) # evs2
                     \<and> (\<forall>ev\<in>set evs1. replayEvent ev)
                     \<and> (\<forall>ev\<in>set evs2. liveEvent ev)"
      by blast
    from e1 e2 e3
    show "let w3 = w2\<lparr>browser := b3,
                           events := events w2 @ [EvGoto (window_url initialState)]\<rparr>
              in executeTest V env cfg False w testRun = executeTest V env cfg True w3 testRun
               \<and> executeTest V env cfg True w3 testRun =
                   (case execute env screenshotInput w3 of
                      (Inl e', w4) \<Rightarrow> (Some e', w4, testRun)
                    | (Inr st, w4) \<Rightarrow> executeLive env st w4 testRun)
               \<and> (\<exists>evs1 evs2.
                     events (fst (snd (executeTest V env cfg False w testRun)))
                       = events w @ EvExecute screenshotInput # EvReplayAttempt # evs1
                           @ EvGoto (window_url initialState) # evs2
                     \<and> (\<forall>ev\<in>set evs1. replayEvent ev)
                     \<and> (\<forall>ev\<in>set evs2. liveEvent ev))"
      unfolding Let_def by (intro conjI)
  qed
  from r2 instanceofCacheError_iff [of e] a b c show ?thesis by (intro conjI) blast+
qed


lemma stale_replay:
  "repo w = staleRepo \<Longrightarrow>
   runCachedTest 2 sampleEnv w r =
     (Some (ErrorObj (CacheError invalid) ''UI element mismatch''),
      w\<lparr>browser := Suc (browser w),
        events := events w @
          [EvReplayAttempt, EvDelay 1000,
           EvExecute \<lparr>action = TYPE', coordinate = None, coordinates = None,
                      text_field = None, url = None, duration = None\<rparr>,
           EvDelay 1000, EvComponentStr 10 20],
        repo := staleRepo\<lparr>memo := Some [recordedRun staleSteps]\<rparr>\<rparr>, r)"
  by (simp add: runCachedTest_def staleRepo_def latest_recorded Let_def)
     (simp add: staleSteps_def notScreenshot_def sampleStep_def moveStep_def checkStep_def
        executeStep_def execute_def sampleEnv_def Let_def)

lemma sample_screenshot:
  "execute sampleEnv screenshotInput w =
     (Inr sampleToolResult,
      w\<lparr>browser := Suc (browser w), events := events w @ [EvExecute screenshotInput]\<rparr>)"
  by (simp add: execute_def sampleEnv_def)

lemma runningRun_simps [simp]:
  "testCase (runningRun tc) = tc"
  "state (runningRun tc) = \<lparr>status = running, reason = None\<rparr>"
  "executedFromCache (runningRun tc) = False"
  "steps (runningRun tc) = []"
  by (simp_all add: runningRun_def create_def newTestRun_def)

lemma sampleTestCase_simps [simp]:
  "directExecution sampleTestCase = False"
  "beforeFn sampleTestCase = None"
  "afterFn sampleTestCase = None"
  "fn sampleTestCase = None"
  by (simp_all add: sampleTestCase_def)

lemma sample_live:
  "beforeFn tc = None \<Longrightarrow> afterFn tc = None \<Longrightarrow>
   executeLive sampleEnv st w (runningRun tc) =
     (None,
      w\<lparr>browser := Suc (browser w), events := events w @ [EvRunAction (buildPrompt tc st)]\<rparr>,
      (runningRun tc)\<lparr>state := \<lparr>status = passed, reason = Some ''primary ok''\<rparr>,
                      tokenUsage := sampleUsage\<rparr>)"
  by (simp add: executeLive_def invokeOpt_def sampleEnv_def Let_def markPassed_def
      setTokenUsage_def)

theorem cache_error_fallback_witness:
  "executeTest 2 sampleEnv cachingOn False (sampleWorld staleRepo) (runningRun sampleTestCase)
     = executeTest 2 sampleEnv cachingOn True
         \<lparr>browser = 0,
          events = [EvExecute screenshotInput, EvReplayAttempt, EvDelay 1000,
                    EvExecute \<lparr>action = TYPE', coordinate = None, coordinates = None,
                               text_field = None, url = None, duration = None\<rparr>,
                    EvDelay 1000, EvComponentStr 10 20,
                    EvGoto (Some ''http://localhost:3000'')],
          repo = staleRepo\<lparr>memo := Some [recordedRun staleSteps]\<rparr>\<rparr>
         (runningRun sampleTestCase)
   \<and> state (snd (snd (executeTest 2 sampleEnv cachingOn False (sampleWorld staleRepo)
                          (runningRun sampleTestCase))))
       = \<lparr>status = passed, reason = Some ''primary ok''\<rparr>
   \<and> \<not> executedFromCache (snd (snd (executeTest 2 sampleEnv cachingOn False
                                        (sampleWorld staleRepo) (runningRun sampleTestCase))))"
proof -
  let ?w = "sampleWorld staleRepo"
  let ?w1 = "?w\<lparr>browser := Suc (browser ?w), events := events ?w @ [EvExecute screenshotInput]\<rparr>"
  let ?w2 = "?w1\<lparr>browser := Suc (browser ?w1),
        events := events ?w1 @
          [EvReplayAttempt, EvDelay 1000,
           EvExecute \<lparr>action = TYPE', coordinate = None, coordinates = None,
                      text_field = None, url = None, duration = None\<rparr>,
           EvDelay 1000, EvComponentStr 10 20],
        repo := staleRepo\<lparr>memo := Some [recordedRun staleSteps]\<rparr>\<rparr>"
  let ?w3 = "\<lparr>browser = 0,
          events = [EvExecute screenshotInput, EvReplayAttempt, EvDelay 1000,
                    EvExecute \<lparr>action = TYPE', coordinate = None, coordinates = None,
                               text_field = None, url = None, duration = None\<rparr>,
                    EvDelay 1000, EvComponentStr 10 20,
                    EvGoto (Some ''http://localhost:3000'')],
          repo = staleRepo\<lparr>memo := Some [recordedRun staleSteps]\<rparr>\<rparr>"
  have nd: "\<not> directExecution (testCase (runningRun sampleTestCase))"
    by simp
  have ce: "caching_enabled cachingOn" by (simp add: cachingOn_def)
  have shot: "execute sampleEnv screenshotInput ?w = (Inr sampleToolResult, ?w1)"
    by (rule sample_screenshot)
  have rc: "runCachedTest 2 sampleEnv ?w1 (runningRun sampleTestCase) =
              (Some (ErrorObj (CacheError invalid) ''UI element mismatch''), ?w2,
               runningRun sampleTestCase)"
    by (rule stale_replay) (simp add: sampleWorld_def)
  have ice: "instanceofCacheError (ErrorObj (CacheError invalid) ''UI element mismatch'')"
    by simp
  have g: "pageGoto sampleEnv (browser ?w2) (window_url sampleToolResult) = (None, 0)"
    by (simp add: sampleEnv_def)
  have w3: "?w2\<lparr>browser := 0, events := events ?w2 @ [EvGoto (window_url sampleToolResult)]\<rparr> = ?w3"
    by (simp add: sampleWorld_def sampleToolResult_def)
  from cache_error_fallback [OF nd ce shot rc] ice g
  have "let w3 = ?w2\<lparr>browser := 0, events := events ?w2 @ [EvGoto (window_url sampleToolResult)]\<rparr>
        in executeTest 2 sampleEnv cachingOn False ?w (runningRun sampleTestCase)
             = executeTest 2 sampleEnv cachingOn True w3 (runningRun sampleTestCase)"
    unfolding Let_def by blast
  then have e: "executeTest 2 sampleEnv cachingOn False ?w (runningRun sampleTestCase)
             = executeTest 2 sampleEnv cachingOn True ?w3 (runningRun sampleTestCase)"
    unfolding Let_def w3 .
  have f: "executeTest 2 sampleEnv cachingOn True ?w3 (runningRun sampleTestCase)
        = (None,
           ?w3\<lparr>browser := 2, events := events ?w3 @ [EvExecute screenshotInput,
                    EvRunAction (buildPrompt sampleTestCase sampleToolResult)]\<rparr>,
           (runningRun sampleTestCase)\<lparr>state := \<lparr>status = passed, reason = Some ''primary ok''\<rparr>,
                      tokenUsage := sampleUsage\<rparr>)"
    by (simp add: executeTest_skip [OF nd] sample_screenshot sample_live)
  show ?thesis unfolding e by (simp add: f)
qed


section \<open>Callbacks around the primary action\<close>


lemma afterCached_events:
  "afterCached w r = (x, w', r') \<Longrightarrow>
     events w' = events w @ (if afterFn (testCase r) = None then [] else [EvAfterFn])"
  by (auto simp: afterCached_def dest!: invoke_events split: option.splits prod.splits)

lemma executeLive_before_first:
  assumes "executeLive env st w r = (x, w', r')" and bf: "beforeFn (testCase r) = Some f"
  shows "\<exists>evs. events w' = events w @ EvBeforeFn # evs"
proof -
  obtain rb wb where b: "invokeOpt EvBeforeFn (beforeFn (testCase r)) w = (rb, wb)"
    by (cases "invokeOpt EvBeforeFn (beforeFn (testCase r)) w")
  from invokeOpt_events [OF b] bf have eb: "events wb = events w @ [EvBeforeFn]" by simp
  show ?thesis
  proof (cases rb)
    case (Some e)
    with assms b have "w' = wb" by (simp add: executeLive_def)
    with eb show ?thesis by simp
  next
    case None
    obtain oc b2 ns where ra: "runAction env (browser wb) (buildPrompt (testCase r) st) = (oc, b2, ns)"
      by (cases "runAction env (browser wb) (buildPrompt (testCase r) st)")
    let ?w2 = "wb\<lparr>browser := b2, events := events wb @ [EvRunAction (buildPrompt (testCase r) st)]\<rparr>"
    show ?thesis
    proof (cases oc)
      case (Inl e)
      with assms b None ra have "w' = ?w2" by (simp add: executeLive_def Let_def)
      with eb show ?thesis by simp
    next
      case (Inr resp)
      obtain rf wf where f: "invokeOpt EvAfterFn (afterFn (testCase r)) ?w2 = (rf, wf)"
        by (cases "invokeOpt EvAfterFn (afterFn (testCase r)) ?w2")
      from assms(1) b None ra Inr f have "w' = wf"
        by (auto simp: executeLive_def Let_def split: option.splits AIStatus.splits sum.splits)
      with invokeOpt_events [OF f] eb show ?thesis by simp
    qed
  qed
qed

text \<open>
  C10. Let the test not be a direct one, caching be enabled, \<^verbatim>\<open>skipCache\<close> be unset,
  the first screenshot succeed and the replay succeed. Then \<^verbatim>\<open>executeTest\<close> is the
  replay followed by the after callback: its events are the screenshot, the replay
  attempt with its step events, and the after callback if there is one; the before
  callback is not among them. On the live path (which the retry after a cache error
  takes, see C4) a before callback is the first thing invoked.
\<close>

theorem before_callback_only_live:
  fixes env :: "'b env"
  assumes nd: "\<not> directExecution (testCase testRun)"
    and ce: "caching_enabled cfg"
    and shot: "execute env screenshotInput w = (Inr initialState, w1)"
    and rc: "runCachedTest V env w1 testRun = (None, w2, run2)"
  shows "executeTest V env cfg False w testRun = afterCached w2 run2
     \<and> (\<exists>evs. events (fst (snd (executeTest V env cfg False w testRun)))
                 = events w @ EvExecute screenshotInput # EvReplayAttempt # evs
                     @ (if afterFn (testCase testRun) = None then [] else [EvAfterFn])
              \<and> (\<forall>ev\<in>set evs. replayEvent ev))
     \<and> EvBeforeFn \<notin> set (drop (length (events w))
                            (events (fst (snd (executeTest V env cfg False w testRun)))))
     \<and> (\<forall>f st w' r. beforeFn (testCase r) = Some f \<longrightarrow>
           (\<exists>evs. events (fst (snd (executeLive env st w' r))) = events w' @ EvBeforeFn # evs))"
proof -
  have e: "executeTest V env cfg False w testRun = afterCached w2 run2"
    by (simp add: executeTest_cached [OF nd ce shot] rc)
  obtain x wf rf where fin: "afterCached w2 run2 = (x, wf, rf)"
    by (cases "afterCached w2 run2")
  from runCachedTest_success_run [OF rc] have tc: "testCase run2 = testCase testRun" by simp
  from runCachedTest_events [OF rc] obtain evs where
    v1: "events w2 = events w1 @ EvReplayAttempt # evs" "\<forall>ev\<in>set evs. replayEvent ev" by blast
  from execute_events [OF shot] have v0: "events w1 = events w @ [EvExecute screenshotInput]"
    by simp
  let ?tail = "if afterFn (testCase testRun) = None then [] else [EvAfterFn]"
  from afterCached_events [OF fin] tc v1(1) v0
  have shape: "events (fst (snd (executeTest V env cfg False w testRun)))
                 = events w @ EvExecute screenshotInput # EvReplayAttempt # evs @ ?tail"
    by (simp add: e fin)
  from v1(2) have nb: "EvBeforeFn \<notin> set evs" by auto
  have c2: "\<exists>evs. events (fst (snd (executeTest V env cfg False w testRun)))
                 = events w @ EvExecute screenshotInput # EvReplayAttempt # evs @ ?tail
              \<and> (\<forall>ev\<in>set evs. replayEvent ev)"
    using shape v1(2) by blast
  have c3: "EvBeforeFn \<notin> set (drop (length (events w))
                            (events (fst (snd (executeTest V env cfg False w testRun)))))"
    using nb by (simp add: shape)
  have c4: "\<forall>f st w' r. beforeFn (testCase r) = Some f \<longrightarrow>
           (\<exists>evs. events (fst (snd (executeLive env st w' r))) = events w' @ EvBeforeFn # evs)"
  proof (intro allI impI)
    fix f st and w' :: "'b world" and r :: "'b TestRun"
    assume bf: "beforeFn (testCase r) = Some f"
    obtain x' wl rl where l: "executeLive env st w' r = (x', wl, rl)"
      by (cases "executeLive env st w' r")
    from executeLive_before_first [OF l bf]
    show "\<exists>evs. events (fst (snd (executeLive env st w' r))) = events w' @ EvBeforeFn # evs"
      by (simp add: l)
  qed
  from e c2 c3 c4 show ?thesis by (intro conjI)
qed


lemma fresh_replay:
  "repo w = freshRepo \<Longrightarrow>
   runCachedTest 2 sampleEnv w (runningRun tc) =
     (None,
      w\<lparr>browser := Suc (browser w),
        events := events w @ [EvReplayAttempt, EvDelay 1000, EvExecute typeInput],
        repo := freshRepo\<lparr>memo := Some [recordedRun [sampleStep ''Typing'' TYPE']]\<rparr>\<rparr>,
      replayedRun tc)"
  by (simp add: runCachedTest_def freshRepo_def latest_recorded Let_def)
     (simp add: notScreenshot_def sampleStep_def checkStep_def typeInput_def replayedRun_def
        executeStep_def execute_def sampleEnv_def Let_def markPassedFromCache_def markPassed_def
        setTokenUsage_def)

lemma withCallbacks_simps [simp]:
  "directExecution withCallbacks = False"
  "beforeFn withCallbacks = Some (\<lambda>b. (None, b))"
  "afterFn withCallbacks = Some (\<lambda>b. (None, b))"
  by (simp_all add: withCallbacks_def sampleTestCase_def)

lemma replayedRun_simps [simp]:
  "testCase (replayedRun tc) = tc"
  "state (replayedRun tc) = \<lparr>status = passed,
                   reason = Some ''All actions successfully replayed from cache''\<rparr>"
  "executedFromCache (replayedRun tc) = True"
  by (simp_all add: replayedRun_def)

theorem before_callback_only_live_witness:
  "executeTest 2 sampleEnv cachingOn False (sampleWorld freshRepo) (runningRun withCallbacks)
     = (None,
        \<lparr>browser = 2,
         events = [EvExecute screenshotInput, EvReplayAttempt, EvDelay 1000,
                   EvExecute typeInput, EvAfterFn],
         repo = freshRepo\<lparr>memo := Some [recordedRun [sampleStep ''Typing'' TYPE']]\<rparr>\<rparr>,
        replayedRun withCallbacks)
   \<and> (\<exists>evs. events (fst (snd (executeLive sampleEnv sampleToolResult (sampleWorld freshRepo)
                                  (runningRun withCallbacks))))
              = EvBeforeFn # evs)"
proof -
  let ?w = "sampleWorld freshRepo"
  let ?w1 = "?w\<lparr>browser := Suc (browser ?w), events := events ?w @ [EvExecute screenshotInput]\<rparr>"
  let ?w2 = "?w1\<lparr>browser := Suc (browser ?w1),
        events := events ?w1 @ [EvReplayAttempt, EvDelay 1000, EvExecute typeInput],
        repo := freshRepo\<lparr>memo := Some [recordedRun [sampleStep ''Typing'' TYPE']]\<rparr>\<rparr>"
  have nd: "\<not> directExecution (testCase (runningRun withCallbacks))" by simp
  have ce: "caching_enabled cachingOn" by (simp add: cachingOn_def)
  have shot: "execute sampleEnv screenshotInput ?w = (Inr sampleToolResult, ?w1)"
    by (rule sample_screenshot)
  have rc: "runCachedTest 2 sampleEnv ?w1 (runningRun withCallbacks) =
              (None, ?w2, replayedRun withCallbacks)"
    by (rule fresh_replay) (simp add: sampleWorld_def)
  have bf: "beforeFn (testCase (runningRun withCallbacks)) = Some (\<lambda>b. (None, b))" by simp
  note t = before_callback_only_live [OF nd ce shot rc]
  from t have e: "executeTest 2 sampleEnv cachingOn False ?w (runningRun withCallbacks)
                    = afterCached ?w2 (replayedRun withCallbacks)" by blast
  from t bf have l: "\<exists>evs. events (fst (snd (executeLive sampleEnv sampleToolResult ?w
                                  (runningRun withCallbacks))))
              = events ?w @ EvBeforeFn # evs" by blast
  have a: "afterCached ?w2 (replayedRun withCallbacks) =
      (None,
        \<lparr>browser = 2,
         events = [EvExecute screenshotInput, EvReplayAttempt, EvDelay 1000,
                   EvExecute typeInput, EvAfterFn],
         repo = freshRepo\<lparr>memo := Some [recordedRun [sampleStep ''Typing'' TYPE']]\<rparr>\<rparr>,
        replayedRun withCallbacks)"
    by (simp add: afterCached_def invoke_def sampleWorld_def)
  from l have l': "\<exists>evs. events (fst (snd (executeLive sampleEnv sampleToolResult ?w
                                  (runningRun withCallbacks)))) = EvBeforeFn # evs"
    by (simp add: sampleWorld_def)
  from e a l' show ?thesis by simp
qed


lemma executeTest_live:
  "\<not> directExecution (testCase r) \<Longrightarrow> \<not> (caching_enabled cfg \<and> \<not> skipCache) \<Longrightarrow>
   execute env screenshotInput w = (Inr st, w1) \<Longrightarrow>
   executeTest V env cfg skipCache w r = executeLive env st w1 r"
  by (cases "caching_enabled cfg"; cases skipCache;
      simp add: executeTest.simps [of V env cfg True w r]
        executeTest.simps [of V env cfg False w r])

lemma invokeOpt_Some: "invokeOpt ev (Some cb) w = invoke ev cb w"
  by (simp add: invokeOpt_def)

lemma invokeOpt_None: "invokeOpt ev None w = (None, w)"
  by (simp add: invokeOpt_def)

lemma executeLive_after_throws:
  assumes b: "invokeOpt EvBeforeFn (beforeFn (testCase r)) w = (None, wb)"
    and ra: "runAction env (browser wb) (buildPrompt (testCase r) st) = (Inr resp, b2, ns)"
    and af: "afterFn (testCase r) = Some f"
    and th: "f b2 = (Some e, b3)"
  shows "executeLive env st w r =
     (None,
      wb\<lparr>browser := b3,
         events := events wb @ [EvRunAction (buildPrompt (testCase r) st), EvAfterFn]\<rparr>,
      markFailed
        (if ai_status resp = AIFailed
         then ''AI: '' @ ai_reason resp @ '', After: '' @ messageOrString e
         else messageOrString e)
        (Some (ai_usage resp)) (foldl (\<lambda>r st. addStep st r) r ns))"
  by (simp add: executeLive_def b ra af th Let_def invokeOpt_Some invoke_def)

lemma markFailed_state:
  "state (markFailed rsn tu r) = \<lparr>status = failed, reason = Some rsn\<rparr>"
  by (simp add: markFailed_def setTokenUsage_def split: option.splits)

text \<open>
  C9, as amended. Let the after callback throw \<open>e\<close> once the primary action has
  produced its verdict. The run ends failed. On the live path, when the verdict of the
  AI client is failed, the reason is "AI: " followed by the reason of the verdict,
  ", After: " and the message of \<open>e\<close>, and so contains both; for any other verdict the
  reason is the message of \<open>e\<close> alone. After a clean replay the run is passed, and the
  reason is the message of \<open>e\<close> alone.
\<close>

theorem after_hook_failure_reason:
  fixes env :: "'b env"
  assumes nd: "\<not> directExecution (testCase testRun)"
    and shot: "execute env screenshotInput w = (Inr st, w1)"
    and af: "afterFn (testCase testRun) = Some f"
  shows
   "(caching_enabled cfg \<and> \<not> skipCache \<longrightarrow>
       (\<forall>w2 run2 e b3.
          runCachedTest V env w1 testRun = (None, w2, run2) \<longrightarrow>
          f (browser w2) = (Some e, b3) \<longrightarrow>
            status (state run2) = passed
          \<and> executeTest V env cfg skipCache w testRun =
              (None, w2\<lparr>browser := b3, events := events w2 @ [EvAfterFn]\<rparr>,
               markFailed (messageOrString e) None run2)
          \<and> state (snd (snd (executeTest V env cfg skipCache w testRun)))
              = \<lparr>status = failed, reason = Some (messageOrString e)\<rparr>))
  \<and> (\<not> (caching_enabled cfg \<and> \<not> skipCache) \<longrightarrow>
       (\<forall>wb resp b2 newSteps e b3.
          invokeOpt EvBeforeFn (beforeFn (testCase testRun)) w1 = (None, wb) \<longrightarrow>
          runAction env (browser wb) (buildPrompt (testCase testRun) st) = (Inr resp, b2, newSteps) \<longrightarrow>
          f b2 = (Some e, b3) \<longrightarrow>
            fst (executeTest V env cfg skipCache w testRun) = None
          \<and> state (snd (snd (executeTest V env cfg skipCache w testRun)))
              = \<lparr>status = failed,
                 reason = Some (if ai_status resp = AIFailed
                                then ''AI: '' @ ai_reason resp @ '', After: '' @ messageOrString e
                                else messageOrString e)\<rparr>
          \<and> (ai_status resp = AIFailed \<longrightarrow>
                sublist (ai_reason resp)
                  (''AI: '' @ ai_reason resp @ '', After: '' @ messageOrString e)
              \<and> sublist (messageOrString e)
                  (''AI: '' @ ai_reason resp @ '', After: '' @ messageOrString e))))"
proof (intro conjI impI allI)
  fix w2 :: "'b world" and run2 :: "'b TestRun" and e b3
  assume c: "caching_enabled cfg \<and> \<not> skipCache"
    and rc: "runCachedTest V env w1 testRun = (None, w2, run2)"
    and th: "f (browser w2) = (Some e, b3)"
  from c have ce: "caching_enabled cfg" and sk: "skipCache = False" by simp_all
  from runCachedTest_success_run [OF rc]
  have tc: "testCase run2 = testCase testRun" and st2: "status (state run2) = passed" by simp_all
  show "status (state run2) = passed" by (rule st2)
  show x: "executeTest V env cfg skipCache w testRun =
              (None, w2\<lparr>browser := b3, events := events w2 @ [EvAfterFn]\<rparr>,
               markFailed (messageOrString e) None run2)"
    unfolding sk by (simp add: executeTest_cached [OF nd ce shot] rc afterCached_def tc af
        invoke_def th st2)
  show "state (snd (snd (executeTest V env cfg skipCache w testRun)))
              = \<lparr>status = failed, reason = Some (messageOrString e)\<rparr>"
    by (simp add: x markFailed_state)
next
  fix wb :: "'b world" and resp b2 newSteps e b3
  assume c: "\<not> (caching_enabled cfg \<and> \<not> skipCache)"
    and b: "invokeOpt EvBeforeFn (beforeFn (testCase testRun)) w1 = (None, wb)"
    and ra: "runAction env (browser wb) (buildPrompt (testCase testRun) st) = (Inr resp, b2, newSteps)"
    and th: "f b2 = (Some e, b3)"
  have x: "executeTest V env cfg skipCache w testRun =
     (None,
      wb\<lparr>browser := b3,
         events := events wb @ [EvRunAction (buildPrompt (testCase testRun) st), EvAfterFn]\<rparr>,
      markFailed
        (if ai_status resp = AIFailed
         then ''AI: '' @ ai_reason resp @ '', After: '' @ messageOrString e
         else messageOrString e)
        (Some (ai_usage resp)) (foldl (\<lambda>r st. addStep st r) testRun newSteps))"
    by (simp only: executeTest_live [OF nd c shot] executeLive_after_throws [OF b ra af th])
  show "fst (executeTest V env cfg skipCache w testRun) = None" by (simp only: x fst_conv)
  show "state (snd (snd (executeTest V env cfg skipCache w testRun)))
              = \<lparr>status = failed,
                 reason = Some (if ai_status resp = AIFailed
                                then ''AI: '' @ ai_reason resp @ '', After: '' @ messageOrString e
                                else messageOrString e)\<rparr>"
    by (simp only: x snd_conv markFailed_state)
  show "sublist (ai_reason resp) (''AI: '' @ ai_reason resp @ '', After: '' @ messageOrString e)"
    by (rule sublist_appendI)
  have "sublist (messageOrString e) ((''AI: '' @ ai_reason resp @ '', After: '') @ messageOrString e)"
    by (rule sublist_append_leftI)
  then show "sublist (messageOrString e)
                  (''AI: '' @ ai_reason resp @ '', After: '' @ messageOrString e)"
    by simp
qed

lemma throwingAfter_simps [simp]:
  "directExecution throwingAfter = False"
  "beforeFn throwingAfter = None"
  "afterFn throwingAfter = Some (\<lambda>b. (Some (ErrorObj PlainError ''hook boom''), b))"
  by (simp_all add: throwingAfter_def sampleTestCase_def)

lemma not_sublist1: "\<not> sublist ''primary ok'' ''hook boom''"
  by (simp add: sublist_Cons_right)

lemma not_sublist2: "\<not> sublist ''All actions successfully replayed from cache'' ''hook boom''"
  by (simp add: sublist_Cons_right)

text \<open>
  C9 as stated fails for a passed verdict. The AI client passes with the reason
  "primary ok" and the after callback throws "hook boom": the run ends failed with
  the reason "hook boom", which does not contain "primary ok". The same after a clean
  replay, whose reason "All actions successfully replayed from cache" is lost.
\<close>

theorem after_hook_masks_passed_verdict:
  "fst (runAction sampleEnv (Suc 0) (buildPrompt throwingAfter sampleToolResult))
     = Inr \<lparr>ai_status = AIPassed, ai_reason = ''primary ok'', ai_usage = sampleUsage\<rparr>
   \<and> state (snd (snd (executeTest 2 sampleEnv cachingOff False (sampleWorld emptyRepo)
                          (runningRun throwingAfter))))
       = \<lparr>status = failed, reason = Some ''hook boom''\<rparr>
   \<and> \<not> sublist ''primary ok'' ''hook boom''
   \<and> state (snd (snd (executeTest 2 sampleEnv cachingOn False (sampleWorld freshRepo)
                          (runningRun throwingAfter))))
       = \<lparr>status = failed, reason = Some ''hook boom''\<rparr>
   \<and> \<not> sublist ''All actions successfully replayed from cache'' ''hook boom''"
proof -
  have nd: "\<not> directExecution (testCase (runningRun throwingAfter))" by simp
  have off: "\<not> (caching_enabled cachingOff \<and> \<not> False)" by (simp add: cachingOff_def)
  have ce: "caching_enabled cachingOn" by (simp add: cachingOn_def)
  have a: "fst (runAction sampleEnv (Suc 0) (buildPrompt throwingAfter sampleToolResult))
     = Inr \<lparr>ai_status = AIPassed, ai_reason = ''primary ok'', ai_usage = sampleUsage\<rparr>"
    by (simp add: sampleEnv_def)
  have b: "state (snd (snd (executeTest 2 sampleEnv cachingOff False (sampleWorld emptyRepo)
                          (runningRun throwingAfter))))
       = \<lparr>status = failed, reason = Some ''hook boom''\<rparr>"
    by (simp only: executeTest_live [OF nd off sample_screenshot])
       (simp add: executeLive_def invokeOpt_None invokeOpt_Some invoke_def sampleEnv_def Let_def
          markFailed_state)
  have c: "state (snd (snd (executeTest 2 sampleEnv cachingOn False (sampleWorld freshRepo)
                          (runningRun throwingAfter))))
       = \<lparr>status = failed, reason = Some ''hook boom''\<rparr>"
    by (simp only: executeTest_cached [OF nd ce sample_screenshot])
       (simp add: fresh_replay sampleWorld_def afterCached_def invoke_def markFailed_state)
  from a b c not_sublist1 not_sublist2 show ?thesis by (intro conjI)
qed


lemma failing_screenshot:
  "execute failingEnv screenshotInput w =
     (Inr sampleToolResult,
      w\<lparr>browser := Suc (browser w), events := events w @ [EvExecute screenshotInput]\<rparr>)"
  by (simp add: execute_def failingEnv_def sampleEnv_def)

theorem after_hook_failure_reason_witness:
  "state (snd (snd (executeTest 2 failingEnv cachingOff False (sampleWorld emptyRepo)
                      (runningRun throwingAfter))))
     = \<lparr>status = failed, reason = Some ''AI: primary bad, After: hook boom''\<rparr>
   \<and> sublist ''primary bad'' ''AI: primary bad, After: hook boom''
   \<and> sublist ''hook boom'' ''AI: primary bad, After: hook boom''"
proof -
  let ?w = "sampleWorld emptyRepo"
  let ?w1 = "?w\<lparr>browser := Suc (browser ?w), events := events ?w @ [EvExecute screenshotInput]\<rparr>"
  let ?resp = "\<lparr>ai_status = AIFailed, ai_reason = ''primary bad'', ai_usage = sampleUsage\<rparr>"
  let ?e = "ErrorObj PlainError ''hook boom''"
  have nd: "\<not> directExecution (testCase (runningRun throwingAfter))" by simp
  have shot: "execute failingEnv screenshotInput ?w = (Inr sampleToolResult, ?w1)"
    by (rule failing_screenshot)
  have af: "afterFn (testCase (runningRun throwingAfter)) = Some (\<lambda>b. (Some ?e, b))" by simp
  have off: "\<not> (caching_enabled cachingOff \<and> \<not> False)" by (simp add: cachingOff_def)
  have b: "invokeOpt EvBeforeFn (beforeFn (testCase (runningRun throwingAfter))) ?w1 = (None, ?w1)"
    by (simp add: invokeOpt_None)
  have ra: "runAction failingEnv (browser ?w1)
              (buildPrompt (testCase (runningRun throwingAfter)) sampleToolResult)
              = (Inr ?resp, Suc (browser ?w1), [])"
    by (simp add: failingEnv_def)
  have th: "(\<lambda>b. (Some ?e, b)) (Suc (browser ?w1)) = (Some ?e, Suc (browser ?w1))" by simp
  from after_hook_failure_reason [OF nd shot af, of cachingOff False 2] off b ra th
  have "state (snd (snd (executeTest 2 failingEnv cachingOff False ?w (runningRun throwingAfter))))
          = \<lparr>status = failed,
             reason = Some (if ai_status ?resp = AIFailed
                            then ''AI: '' @ ai_reason ?resp @ '', After: '' @ messageOrString ?e
                            else messageOrString ?e)\<rparr>
        \<and> (ai_status ?resp = AIFailed \<longrightarrow>
                sublist (ai_reason ?resp)
                  (''AI: '' @ ai_reason ?resp @ '', After: '' @ messageOrString ?e)
              \<and> sublist (messageOrString ?e)
                  (''AI: '' @ ai_reason ?resp @ '', After: '' @ messageOrString ?e))"
    by blast
  then show ?thesis by simp
qed




section \<open>A recorded pointer move without extras\<close>


lemma bare_replay:
  "repo w = bareRepo \<Longrightarrow>
   runCachedTest 2 sampleEnv w r =
     (Some (ErrorObj TypeError typeErrorMessage),
      w\<lparr>events := events w @ [EvReplayAttempt, EvDelay 1000, EvComponentStr 10 20],
        repo := bareRepo\<lparr>memo := Some [recordedRun [bareMoveStep]]\<rparr>\<rparr>, r)"
  by (simp add: runCachedTest_def bareRepo_def latest_recorded Let_def)
     (simp add: bareMoveStep_def notScreenshot_def moveStep_def checkStep_def sampleEnv_def
        Let_def)

text \<open>
  C2 at a concrete input. The passed run on disk recorded one pointer move to
  (10, 20) and no \<^verbatim>\<open>extras\<close> object. The replay computes the component string at
  the coordinate and then reads \<^verbatim>\<open>step.extras.componentStr\<close>, which throws a
  TypeError: the replay does not end with the "invalid" cache error. The TypeError is
  not a CacheError, so \<^verbatim>\<open>executeTest\<close> does not fall back to the live path (no
  navigation, no call of the AI client) and the error leaves the body of the loop over
  the test cases.
\<close>

theorem replay_without_extras_is_not_a_cache_error:
  "map_option (\<lambda>a. (action (input a), coordinate (input a))) (step_action bareMoveStep)
     = Some (MOUSE_MOVE, Some (10, 20))
   \<and> extras bareMoveStep = None
   \<and> runCachedTest 2 sampleEnv (sampleWorld bareRepo) (runningRun sampleTestCase)
       = (Some (ErrorObj TypeError typeErrorMessage),
          \<lparr>browser = 0,
           events = [EvReplayAttempt, EvDelay 1000, EvComponentStr 10 20],
           repo = bareRepo\<lparr>memo := Some [recordedRun [bareMoveStep]]\<rparr>\<rparr>,
          runningRun sampleTestCase)
   \<and> \<not> instanceofCacheError (ErrorObj TypeError typeErrorMessage)
   \<and> ErrorObj TypeError typeErrorMessage \<noteq> ErrorObj (CacheError invalid) ''UI element mismatch''
   \<and> executeTest 2 sampleEnv cachingOn False (sampleWorld bareRepo) (runningRun sampleTestCase)
       = (Some (ErrorObj TypeError typeErrorMessage),
          \<lparr>browser = 1,
           events = [EvExecute screenshotInput, EvReplayAttempt, EvDelay 1000,
                     EvComponentStr 10 20],
           repo = bareRepo\<lparr>memo := Some [recordedRun [bareMoveStep]]\<rparr>\<rparr>,
          runningRun sampleTestCase)
   \<and> fst (executeTestCase 2 sampleEnv cachingOn [] [] sampleDate sampleTestCase
            (sampleWorld bareRepo))
       = Some (ErrorObj TypeError typeErrorMessage)"
proof -
  have nd: "\<not> directExecution (testCase (runningRun sampleTestCase))" by simp
  have ce: "caching_enabled cachingOn" by (simp add: cachingOn_def)
  have a: "map_option (\<lambda>a. (action (input a), coordinate (input a))) (step_action bareMoveStep)
     = Some (MOUSE_MOVE, Some (10, 20))"
    by (simp add: bareMoveStep_def moveStep_def)
  have b: "extras bareMoveStep = None" by (simp add: bareMoveStep_def)
  have c: "runCachedTest 2 sampleEnv (sampleWorld bareRepo) (runningRun sampleTestCase)
       = (Some (ErrorObj TypeError typeErrorMessage),
          \<lparr>browser = 0,
           events = [EvReplayAttempt, EvDelay 1000, EvComponentStr 10 20],
           repo = bareRepo\<lparr>memo := Some [recordedRun [bareMoveStep]]\<rparr>\<rparr>,
          runningRun sampleTestCase)"
    by (simp add: bare_replay sampleWorld_def)
  have d: "\<not> instanceofCacheError (ErrorObj TypeError typeErrorMessage)" by simp
  have d': "ErrorObj TypeError typeErrorMessage \<noteq> ErrorObj (CacheError invalid) ''UI element mismatch''"
    by simp
  have e: "executeTest 2 sampleEnv cachingOn False (sampleWorld bareRepo) (runningRun sampleTestCase)
       = (Some (ErrorObj TypeError typeErrorMessage),
          \<lparr>browser = 1,
           events = [EvExecute screenshotInput, EvReplayAttempt, EvDelay 1000,
                     EvComponentStr 10 20],
           repo = bareRepo\<lparr>memo := Some [recordedRun [bareMoveStep]]\<rparr>\<rparr>,
          runningRun sampleTestCase)"
    by (simp only: executeTest_cached [OF nd ce sample_screenshot])
       (simp add: bare_replay sampleWorld_def)
  have mr: "markRunning (create 2 sampleDate sampleTestCase) = Inr (runningRun sampleTestCase)"
    by (simp add: markRunning_def runningRun_def create_def newTestRun_def)
  have f: "fst (executeTestCase 2 sampleEnv cachingOn [] [] sampleDate sampleTestCase
            (sampleWorld bareRepo))
       = Some (ErrorObj TypeError typeErrorMessage)"
    by (simp add: executeTestCase_def mr e Let_def)
  from a b c d d' e f show ?thesis by (intro conjI)
qed


end
